theory Spec2Isabelle
  imports Main
begin

section \<open>JavaScript values, thrown errors and observable calls\<close>

text \<open>
  The values that flow through the argument-resolution pipeline of the library.
  A number is carried as an integer, with \<open>JNaN\<close> beside it: the code under study only
  tests a number for truthiness and for identity, and prints it through collaborators.
  Objects are association lists of their own properties, in the enumeration order of
  \<^verbatim>\<open>Object.keys\<close>. A function is known by its name: the only functions that reach
  the pipeline as values are the members of \<^verbatim>\<open>Object.prototype\<close>.
\<close>

datatype jsval =
    JUndefined
  | JNull
  | JBool bool
  | JNum int
  | JNaN
  | JStr string
  | JArr "jsval list"
  | JObj "(string \<times> jsval) list"
  | JFun string

text \<open>\<^verbatim>\<open>Boolean(x)\<close>, and the test of \<^verbatim>\<open>if (x)\<close>.\<close>

fun truthy :: "jsval \<Rightarrow> bool" where
  "truthy JUndefined = False"
| "truthy JNull = False"
| "truthy (JBool b) = b"
| "truthy (JNum n) = (n \<noteq> 0)"
| "truthy JNaN = False"
| "truthy (JStr s) = (s \<noteq> [])"
| "truthy (JArr xs) = True"
| "truthy (JObj kvs) = True"
| "truthy (JFun f) = True"

text \<open>
  What can be thrown. \<open>CommandLineError\<close> is the class of the source (message and
  details); \<open>TypeError\<close> is the engine's error for a property read on
  \<^verbatim>\<open>undefined\<close>; \<open>Raised\<close> is any other error, thrown by a callback of the
  command author or by a collaborator, with its message.
\<close>

datatype exn =
    CommandLineError string jsval
  | TypeError string
  | Raised string

fun exn_message :: "exn \<Rightarrow> string" where
  "exn_message (CommandLineError m d) = m"
| "exn_message (TypeError m) = m"
| "exn_message (Raised m) = m"

text \<open>
  The calls the library makes to its collaborators, in the order it makes them: a default
  producer, a parser, a custom prompt function, the question put to the prompting
  collaborator, a command loader, the command handler, and \<^verbatim>\<open>logger.log\<close>.
\<close>

datatype event =
    CallDefault string
  | CallParse string jsval
  | CallPrompt string
  | Ask string
  | CallLoader string
  | CallRun "(string \<times> jsval) list" "jsval list" "jsval list"
  | Log string

text \<open>
  An \<^verbatim>\<open>async\<close> function that has run: the calls it made, and either the error it
  threw or the value it returned. Every \<^verbatim>\<open>await\<close> of the source is an \<open>io_bind\<close>.
\<close>

type_synonym 'a io = "event list \<times> (exn + 'a)"

definition io_return :: "'a \<Rightarrow> 'a io" where
  "io_return x = ([], Inr x)"

definition io_throw :: "exn \<Rightarrow> 'a io" where
  "io_throw e = ([], Inl e)"

definition io_call :: "event \<Rightarrow> exn + 'a \<Rightarrow> 'a io" where
  "io_call ev r = ([ev], r)"

definition io_bind :: "'a io \<Rightarrow> ('a \<Rightarrow> 'b io) \<Rightarrow> 'b io" where
  "io_bind m f =
     (case m of
        (tr, Inl e) \<Rightarrow> (tr, Inl e)
      | (tr, Inr x) \<Rightarrow> (case f x of (tr', r) \<Rightarrow> (tr @ tr', r)))"

section \<open>Flag and argument declarations\<close>

text \<open>
  The question object built by \<^verbatim>\<open>tryPrompt\<close>, and the \<^verbatim>\<open>PromptArgs\<close> handed
  to a custom prompt function (the \<^verbatim>\<open>inquirer\<close> module itself is left out: the
  library never reads it).
\<close>

record question =
  q_name :: string
  q_type :: string
  q_message :: string
  q_filter :: "jsval \<Rightarrow> exn + jsval"
  q_validate :: "jsval \<Rightarrow> exn + jsval"

record prompt_args =
  pa_prompt :: "question \<Rightarrow> exn + jsval"
  pa_question :: question

text \<open>
  \<^verbatim>\<open>Flag<T>\<close> and \<^verbatim>\<open>Arg<T>\<close> share description, validate, prompt and parse;
  a flag adds \<^verbatim>\<open>default\<close>, an arg adds \<^verbatim>\<open>name\<close>. An optional member is an
  \<open>option\<close>. A callback is given by its outcome: the value it returns or the error it
  throws.
\<close>

record common_spec =
  description :: string
  validate :: "jsval \<Rightarrow> bool"
  prompt :: "(prompt_args \<Rightarrow> exn + jsval) option"
  parse :: "(jsval \<Rightarrow> exn + jsval) option"

record flag = common_spec +
  default_producer :: "(exn + jsval) option"

record arg = common_spec +
  arg_name :: string

text \<open>
  \<^verbatim>\<open>MinimistArgv\<close>: the positional tokens under the key \<^verbatim>\<open>_\<close>, and every other
  own key with its raw value, in enumeration order. The raw arguments are a plain object:
  \<^verbatim>\<open>Object.keys\<close> lists the own keys, while \<^verbatim>\<open>name in argv\<close> and
  \<^verbatim>\<open>argv[name]\<close> also find the members inherited from \<^verbatim>\<open>Object.prototype\<close>,
  which are functions, and \<^verbatim>\<open>__proto__\<close>, which is the prototype object.
\<close>

record minimist_argv =
  positional :: "jsval list"
  named :: "(string \<times> jsval) list"

definition object_prototype_names :: "string list" where
  "object_prototype_names =
     [''constructor'', ''__defineGetter__'', ''__defineSetter__'', ''hasOwnProperty'',
      ''__lookupGetter__'', ''__lookupSetter__'', ''isPrototypeOf'', ''propertyIsEnumerable'',
      ''toString'', ''valueOf'', ''__proto__'', ''toLocaleString'']"

definition inherited :: "string \<Rightarrow> jsval" where
  "inherited k =
     (if k = ''__proto__'' then JObj []
      else if k \<in> set object_prototype_names then JFun k
      else JUndefined)"

definition argv_keys :: "minimist_argv \<Rightarrow> string list" where
  "argv_keys argv = ''_'' # map fst (named argv)"

definition argv_has :: "minimist_argv \<Rightarrow> string \<Rightarrow> bool" where
  "argv_has argv k = (k \<in> set (argv_keys argv) \<or> k \<in> set object_prototype_names)"

definition argv_get :: "minimist_argv \<Rightarrow> string \<Rightarrow> jsval" where
  "argv_get argv k =
     (if k = ''_'' then JArr (positional argv)
      else case map_of (named argv) k of Some v \<Rightarrow> v | None \<Rightarrow> inherited k)"

text \<open>
  What the process and the runtime give the library: whether standard error is a
  terminal, \<^verbatim>\<open>JSON.stringify(x, null, "  ")\<close> and \<^verbatim>\<open>JSON.stringify(x)\<close>, the
  prompting collaborator (the answer it returns for a question, or the error it throws),
  and \<^verbatim>\<open>Number\<close> on the text of a numeric literal.
\<close>

record env =
  isTTY :: bool
  inspect :: "jsval \<Rightarrow> string"
  stringify :: "jsval \<Rightarrow> string"
  ask :: "question \<Rightarrow> exn + jsval"
  to_number :: "string \<Rightarrow> jsval"

definition interactive :: "env \<Rightarrow> bool" where
  "interactive e = isTTY e"

section \<open>Decimal text and \<^verbatim>\<open>toString\<close>\<close>

definition digit_char :: "nat \<Rightarrow> char" where
  "digit_char d = ''0123456789'' ! (d mod 10)"

fun dec :: "nat \<Rightarrow> string" where
  "dec n = (if n < 10 then [digit_char n] else dec (n div 10) @ [digit_char n])"

declare dec.simps [simp del]

definition int_to_string :: "int \<Rightarrow> string" where
  "int_to_string i = (if i < 0 then CHR ''-'' # dec (nat (- i)) else dec (nat i))"

definition join :: "string \<Rightarrow> string list \<Rightarrow> string" where
  "join sep xs = concat (case xs of [] \<Rightarrow> [] | y # ys \<Rightarrow> y # map (\<lambda>z. sep @ z) ys)"

text \<open>
  \<^verbatim>\<open>x.toString()\<close>: a \<^verbatim>\<open>TypeError\<close> on \<^verbatim>\<open>undefined\<close> and \<^verbatim>\<open>null\<close>.
  Inside an array, \<^verbatim>\<open>join\<close> prints those two as the empty text.
\<close>

fun to_text :: "jsval \<Rightarrow> string" where
  "to_text JUndefined = ''undefined''"
| "to_text JNull = ''null''"
| "to_text (JBool b) = (if b then ''true'' else ''false'')"
| "to_text (JNum n) = int_to_string n"
| "to_text JNaN = ''NaN''"
| "to_text (JStr s) = s"
| "to_text (JArr xs) =
     join '','' (map (\<lambda>x. if x = JUndefined \<or> x = JNull then [] else to_text x) xs)"
| "to_text (JObj kvs) = ''[object Object]''"
| "to_text (JFun f) = ''function '' @ f @ ''() { [native code] }''"

definition toString :: "jsval \<Rightarrow> exn + string" where
  "toString x =
     (if x = JUndefined then Inl (TypeError ''Cannot read property 'toString' of undefined'')
      else if x = JNull then Inl (TypeError ''Cannot read property 'toString' of null'')
      else Inr (to_text x))"

section \<open>Resolving one value\<close>

definition tryParseValue :: "env \<Rightarrow> string \<Rightarrow> 'a common_spec_scheme \<Rightarrow> jsval \<Rightarrow> jsval io" where
  "tryParseValue e nm flag v =
     io_bind
       (case parse flag of
          None \<Rightarrow> io_return v
        | Some p \<Rightarrow>
            (case p v of
               Inl err \<Rightarrow>
                 ([CallParse nm v],
                  Inl (CommandLineError
                         (nm @ '': cannot parse '' @ inspect e v @ '': '' @ exn_message err) v))
             | Inr parsed \<Rightarrow> ([CallParse nm v], Inr parsed)))
       (\<lambda>finalValue.
          if \<not> validate flag finalValue
          then io_throw (CommandLineError
                           (nm @ '': invalid value: '' @ inspect e finalValue @ '')'') finalValue)
          else io_return finalValue)"

text \<open>\<^verbatim>\<open>isNumber\<close>, copied by the source from Minimist: the two regular expressions.\<close>

definition is_digit :: "char \<Rightarrow> bool" where
  "is_digit c = (c \<in> set ''0123456789'')"

definition is_hex_digit :: "char \<Rightarrow> bool" where
  "is_hex_digit c = (c \<in> set ''0123456789abcdefABCDEF'')"

definition match_hex :: "string \<Rightarrow> bool" where
  "match_hex s =
     (case s of
        c0 # c1 # ds \<Rightarrow>
          c0 = CHR ''0'' \<and> (c1 = CHR ''x'' \<or> c1 = CHR ''X'') \<and> ds \<noteq> [] \<and> list_all is_hex_digit ds
      | _ \<Rightarrow> False)"

definition match_exponent :: "string \<Rightarrow> bool" where
  "match_exponent s =
     (case s of
        [] \<Rightarrow> True
      | c # cs \<Rightarrow>
          c = CHR ''e'' \<and>
          (let ds = (case cs of
                       [] \<Rightarrow> []
                     | sg # r \<Rightarrow> if sg = CHR ''-'' \<or> sg = CHR ''+'' then r else cs)
           in ds \<noteq> [] \<and> list_all is_digit ds))"

definition match_decimal :: "string \<Rightarrow> bool" where
  "match_decimal s =
     (let u = (case s of
                 [] \<Rightarrow> []
               | sg # r \<Rightarrow> if sg = CHR ''-'' \<or> sg = CHR ''+'' then r else s);
          ds = takeWhile is_digit u;
          r = dropWhile is_digit u
      in if ds \<noteq> []
         then (case r of
                 [] \<Rightarrow> True
               | c # r' \<Rightarrow>
                   if c = CHR ''.'' then match_exponent (dropWhile is_digit r')
                   else match_exponent r)
         else (case r of
                 [] \<Rightarrow> False
               | c # r' \<Rightarrow>
                   c = CHR ''.'' \<and> takeWhile is_digit r' \<noteq> [] \<and>
                   match_exponent (dropWhile is_digit r')))"

definition isNumber :: "jsval \<Rightarrow> exn + bool" where
  "isNumber x =
     (case x of
        JNum n \<Rightarrow> Inr True
      | JNaN \<Rightarrow> Inr True
      | _ \<Rightarrow> (case toString x of
                Inl err \<Rightarrow> Inl err
              | Inr s \<Rightarrow> Inr (match_hex s \<or> match_decimal s)))"

definition Number :: "env \<Rightarrow> jsval \<Rightarrow> jsval" where
  "Number e x = (case x of JNum n \<Rightarrow> JNum n | JNaN \<Rightarrow> JNaN | _ \<Rightarrow> to_number e (to_text x))"

definition defaultParser :: "env \<Rightarrow> jsval \<Rightarrow> exn + jsval" where
  "defaultParser e v =
     (case isNumber v of
        Inl err \<Rightarrow> Inl err
      | Inr True \<Rightarrow> Inr (Number e v)
      | Inr False \<Rightarrow>
          if v = JStr ''true'' then Inr (JBool True)
          else if v = JStr ''false'' then Inr (JBool False)
          else Inr v)"

definition prompt_question :: "env \<Rightarrow> string \<Rightarrow> 'a common_spec_scheme \<Rightarrow> question" where
  "prompt_question e nm flag =
     (let message = nm @ '': '' @ description flag;
          filter_fn = (case parse flag of Some p \<Rightarrow> p | None \<Rightarrow> defaultParser e);
          validate_fn = (\<lambda>input.
             case filter_fn input of
               Inl err \<Rightarrow> Inl err
             | Inr x \<Rightarrow>
                 Inr (if validate flag x then JBool True
                      else JStr (nm @ '': Invalid value '' @ inspect e input @ '', try again.'')))
      in \<lparr>q_name = ''value'', q_type = ''input'', q_message = message,
          q_filter = filter_fn, q_validate = validate_fn\<rparr>)"

definition tryPrompt :: "env \<Rightarrow> string \<Rightarrow> 'a common_spec_scheme \<Rightarrow> jsval io" where
  "tryPrompt e nm flag =
     (if \<not> interactive e
      then io_throw (CommandLineError
             (nm @ '': Required but not given (and cannot prompt in non-iteractive mode)'')
             (JStr nm))
      else
        let question = prompt_question e nm flag
        in io_bind
             (case prompt flag of
                Some custom \<Rightarrow>
                  io_call (CallPrompt nm) (custom \<lparr>pa_prompt = ask e, pa_question = question\<rparr>)
              | None \<Rightarrow> io_call (Ask (q_message question)) (ask e question))
             (\<lambda>v. if validate flag v then io_return v
                  else io_throw (CommandLineError
                         (nm @ '': prompting returned invalid value: '' @ inspect e v) v)))"

definition parseFlag :: "env \<Rightarrow> string \<Rightarrow> flag \<Rightarrow> minimist_argv \<Rightarrow> jsval io" where
  "parseFlag e nm flag argv =
     (let givenValue = argv_get argv nm
      in if argv_has argv nm then tryParseValue e (''--'' @ nm) flag givenValue
         else (case default_producer flag of
                 Some d \<Rightarrow>
                   io_bind (io_call (CallDefault nm) d)
                     (\<lambda>defaulted.
                        if validate flag defaulted then io_return defaulted
                        else io_throw (CommandLineError
                               (''--'' @ nm @ '': BUG: the default value was invalid: ''
                                  @ inspect e defaulted) defaulted))
               | None \<Rightarrow> tryPrompt e (''--'' @ nm) flag))"


text \<open>
  The token list is a dense array, so \<^verbatim>\<open>index in argv\<close> is
  \<^verbatim>\<open>index < argv.length\<close>.
\<close>

definition parseArg :: "env \<Rightarrow> nat \<Rightarrow> arg \<Rightarrow> jsval list \<Rightarrow> jsval io" where
  "parseArg e index a given =
     (let nm = ''arg '' @ dec (index + 1) @ '' ('' @ arg_name a @ '')''
      in if index < length given then tryParseValue e nm a (given ! index)
         else tryPrompt e nm a)"

section \<open>Resolving a flag map, the positional arguments and the rest\<close>

text \<open>\<^verbatim>\<open>result[name] = value\<close> on an object kept as an association list.\<close>

definition obj_set :: "(string \<times> jsval) list \<Rightarrow> string \<Rightarrow> jsval \<Rightarrow> (string \<times> jsval) list" where
  "obj_set obj k v =
     (if k \<in> fst ` set obj then map (\<lambda>(k', v'). if k' = k then (k', v) else (k', v')) obj
      else obj @ [(k, v)])"

definition obj_get :: "(string \<times> jsval) list \<Rightarrow> string \<Rightarrow> jsval" where
  "obj_get obj k = (case map_of obj k of Some v \<Rightarrow> v | None \<Rightarrow> JUndefined)"

text \<open>
  The two \<^verbatim>\<open>for ... of\<close> loops of \<^verbatim>\<open>parseFlagMap\<close> are one function, run on the
  names with a default and then on the names without. \<^verbatim>\<open>flagSet[name]\<close> is a lookup;
  reading a member of a missing entry is the engine's \<^verbatim>\<open>TypeError\<close>.
\<close>

fun parseFlags_loop ::
  "env \<Rightarrow> (string \<times> flag) list \<Rightarrow> minimist_argv \<Rightarrow> string list \<Rightarrow> (string \<times> jsval) list
     \<Rightarrow> (string \<times> jsval) list io" where
  "parseFlags_loop e flagSet argv [] result = io_return result"
| "parseFlags_loop e flagSet argv (nm # nms) result =
     (case map_of flagSet nm of
        None \<Rightarrow> io_throw (TypeError ''Cannot read property of undefined'')
      | Some f \<Rightarrow>
          io_bind (parseFlag e nm f argv)
            (\<lambda>v. parseFlags_loop e flagSet argv nms (obj_set result nm v)))"

definition has_default :: "(string \<times> flag) list \<Rightarrow> string \<Rightarrow> bool" where
  "has_default flagSet nm =
     (case map_of flagSet nm of Some f \<Rightarrow> default_producer f \<noteq> None | None \<Rightarrow> False)"

definition givenFlagNames :: "minimist_argv \<Rightarrow> string list" where
  "givenFlagNames argv = filter (\<lambda>nm. nm \<noteq> ''_'' \<and> nm \<noteq> ''$0'') (argv_keys argv)"

definition unknownFlags :: "(string \<times> flag) list \<Rightarrow> minimist_argv \<Rightarrow> string list" where
  "unknownFlags flagSet argv =
     filter (\<lambda>nm. nm \<notin> set (map fst flagSet)) (givenFlagNames argv)"

definition parseFlagMap ::
  "env \<Rightarrow> (string \<times> flag) list \<Rightarrow> minimist_argv \<Rightarrow> (string \<times> jsval) list io" where
  "parseFlagMap e flagSet argv =
     (let allFlagNames = map fst flagSet;
          unknown = unknownFlags flagSet argv
      in if length unknown > 0
         then io_throw (CommandLineError
                (''Unknown flags given: '' @ join '', '' (map (\<lambda>nm. ''--'' @ nm) unknown))
                (JArr (map JStr unknown)))
         else
           let nonDefaultableFlagNames = filter (\<lambda>nm. \<not> has_default flagSet nm) allFlagNames;
               defaultableFlagNames = filter (\<lambda>nm. has_default flagSet nm) allFlagNames
           in io_bind (parseFlags_loop e flagSet argv defaultableFlagNames [])
                (\<lambda>result. parseFlags_loop e flagSet argv nonDefaultableFlagNames result))"

fun parseArgs_loop ::
  "env \<Rightarrow> arg list \<Rightarrow> jsval list \<Rightarrow> nat \<Rightarrow> jsval list \<Rightarrow> jsval list io" where
  "parseArgs_loop e [] given i results = io_return results"
| "parseArgs_loop e (a # as) given i results =
     io_bind (parseArg e i a given)
       (\<lambda>v. parseArgs_loop e as given (Suc i) (results @ [v]))"

definition parseArgsArray :: "env \<Rightarrow> arg list \<Rightarrow> minimist_argv \<Rightarrow> jsval list io" where
  "parseArgsArray e argsArray argv =
     (let givenArgs = positional argv
      in if length argsArray < length argsArray
         then io_throw (CommandLineError
                (''Expected at most '' @ dec (length argsArray) @ '' args, but received ''
                   @ dec (length givenArgs) @ '': ''
                   @ join '', '' (map (inspect e) (positional argv)))
                (JArr givenArgs))
         else parseArgs_loop e argsArray givenArgs 0 [])"

fun parseRest_loop ::
  "env \<Rightarrow> arg \<Rightarrow> jsval list \<Rightarrow> nat \<Rightarrow> jsval list \<Rightarrow> jsval list io" where
  "parseRest_loop e restType [] i results = io_return results"
| "parseRest_loop e restType (x # xs) i results =
     io_bind (tryParseValue e (''Rest arg '' @ dec (i + 1)) restType x)
       (\<lambda>v. parseRest_loop e restType xs (Suc i) (results @ [v]))"

definition parseRest :: "env \<Rightarrow> arg \<Rightarrow> jsval list \<Rightarrow> jsval list io" where
  "parseRest e restType givenArgs =
     (if length givenArgs = 0 then io_return givenArgs
      else parseRest_loop e restType givenArgs 0 [])"

section \<open>Commands, help and dispatch\<close>

text \<open>
  \<^verbatim>\<open>Command\<close> is the union of \<^verbatim>\<open>FlagsCommand\<close> (description, flags, run) and
  \<^verbatim>\<open>ArgsCommand\<close> (description, flags, args, rest, run); the source tells them apart by
  the presence of the members \<^verbatim>\<open>args\<close> and \<^verbatim>\<open>rest\<close>. The handler is given by its
  outcome.
\<close>

datatype command =
    FlagsCommand string "(string \<times> flag) list" "(string \<times> jsval) list \<Rightarrow> exn + unit"
  | ArgsCommand string "(string \<times> flag) list" "arg list" arg
      "(string \<times> jsval) list \<Rightarrow> jsval list \<Rightarrow> jsval list \<Rightarrow> exn + unit"

fun command_flags :: "command \<Rightarrow> (string \<times> flag) list" where
  "command_flags (FlagsCommand d fl run) = fl"
| "command_flags (ArgsCommand d fl as r run) = fl"

text \<open>
  The layout of help text is the work of \<^verbatim>\<open>chalk\<close> and \<^verbatim>\<open>table\<close>, which are not
  part of the library: the text of a command's usage is a function of its name, the
  command and the cells of the Default column, and the text of the command list is a
  function of the name and the loaded commands, of which there is at least one.
\<close>

record renderer =
  usage_text :: "string \<Rightarrow> command \<Rightarrow> string list \<Rightarrow> string"
  loaders_text :: "string \<Rightarrow> (string \<times> command) list \<Rightarrow> string"

text \<open>
  The loop of \<^verbatim>\<open>getCommandUsage\<close> over the flags, which fills the Default column: it
  calls the default producer of every flag that has one.
\<close>

fun usage_defaults ::
  "env \<Rightarrow> (string \<times> flag) list \<Rightarrow> string list \<Rightarrow> string list \<Rightarrow> string list io" where
  "usage_defaults e flags [] cells = io_return cells"
| "usage_defaults e flags (nm # nms) cells =
     (case map_of flags nm of
        None \<Rightarrow> io_throw (TypeError ''Cannot read property of undefined'')
      | Some f \<Rightarrow>
          io_bind
            (case default_producer f of
               Some d \<Rightarrow> io_bind (io_call (CallDefault nm) d) (\<lambda>v. io_return (inspect e v))
             | None \<Rightarrow> io_return ''Prompts.'')
            (\<lambda>cell. usage_defaults e flags nms (cells @ [cell])))"

definition getCommandUsage :: "env \<Rightarrow> renderer \<Rightarrow> string \<Rightarrow> command \<Rightarrow> string io" where
  "getCommandUsage e rd nm cmd =
     io_bind (usage_defaults e (command_flags cmd) (map fst (command_flags cmd)) [])
       (\<lambda>cells. io_return (usage_text rd nm cmd cells))"

definition wantsHelp :: "minimist_argv \<Rightarrow> bool" where
  "wantsHelp argv =
     (truthy (argv_get argv ''help'') \<or> truthy (argv_get argv ''h'') \<or> truthy (argv_get argv ''?''))"

definition runCommand :: "env \<Rightarrow> renderer \<Rightarrow> string \<Rightarrow> command \<Rightarrow> minimist_argv \<Rightarrow> unit io" where
  "runCommand e rd nm cmd argv =
     (if wantsHelp argv
      then io_bind (getCommandUsage e rd nm cmd) (\<lambda>usage. io_call (Log usage) (Inr ()))
      else
        (case cmd of
           ArgsCommand d fl as r run \<Rightarrow>
             io_bind (parseArgsArray e as argv)
               (\<lambda>args. io_bind (parseRest e r (drop (length args) (positional argv)))
                  (\<lambda>rest. io_bind (parseFlagMap e fl argv)
                     (\<lambda>flags. io_call (CallRun flags args rest) (run flags args rest))))
         | FlagsCommand d fl run \<Rightarrow>
             if length (positional argv) > 0
             then io_throw (CommandLineError
                    (''Expected 0 args, but given '' @ dec (length (positional argv)) @ '': ''
                       @ join '', '' (map (inspect e) (positional argv)))
                    (JArr (positional argv)))
             else io_bind (parseFlagMap e fl argv)
                    (\<lambda>flags. io_call (CallRun flags [] []) (run flags))))"

section \<open>Subcommands\<close>

text \<open>
  \<^verbatim>\<open>CommandLoaders\<close>: each loader by its outcome. \<^verbatim>\<open>loadAllCommands\<close> starts every
  loader before it awaits any of them, and fails when one of them has failed.

  \<^verbatim>\<open>loaders[commandName]\<close> also finds the members inherited from
  \<^verbatim>\<open>Object.prototype\<close>, and \<^verbatim>\<open>loadCommand\<close> calls what it finds. Called without a
  receiver, \<^verbatim>\<open>constructor\<close> returns an empty object, \<^verbatim>\<open>toString\<close> the text
  \<^verbatim>\<open>[object Undefined]\<close> and \<^verbatim>\<open>isPrototypeOf\<close> \<^verbatim>\<open>false\<close>; the other functions
  throw a \<^verbatim>\<open>TypeError\<close>, and \<^verbatim>\<open>__proto__\<close> is no function, so that calling it
  throws. What \<^verbatim>\<open>loadCommand\<close> returns is then a command (\<open>Inl\<close>) or some other
  value (\<open>Inr\<close>).
\<close>

type_synonym command_loaders = "(string \<times> (exn + command)) list"

definition inherited_loader :: "string \<Rightarrow> exn + jsval" where
  "inherited_loader k =
     (if k = ''constructor'' then Inr (JObj [])
      else if k = ''toString'' then Inr (JStr ''[object Undefined]'')
      else if k = ''isPrototypeOf'' then Inr (JBool False)
      else Inl (TypeError ''Cannot convert undefined or null to object''))"

definition loadCommand :: "string \<Rightarrow> command_loaders \<Rightarrow> (command + jsval) io" where
  "loadCommand commandName loaders =
     (case map_of loaders commandName of
        Some loader \<Rightarrow>
          io_call (CallLoader commandName)
            (case loader of Inl err \<Rightarrow> Inl err | Inr cmd \<Rightarrow> Inr (Inl cmd))
      | None \<Rightarrow>
          if commandName = ''__proto__'' then io_throw (TypeError ''loader is not a function'')
          else if commandName \<in> set object_prototype_names
          then io_call (CallLoader commandName)
                 (case inherited_loader commandName of
                    Inl err \<Rightarrow> Inl err
                  | Inr v \<Rightarrow> Inr (Inr v))
          else io_throw (CommandLineError (''Command not found: '' @ commandName)
                 (JStr commandName)))"

text \<open>
  \<^verbatim>\<open>runCommand\<close> handed a value that is not a command. With a help flag,
  \<^verbatim>\<open>getCommandUsage\<close> reads \<^verbatim>\<open>command.description.trim()\<close> and throws. Without
  one, \<^verbatim>\<open>"args" in command\<close> throws on a primitive value; an object without
  members goes to the branch of a \<^verbatim>\<open>FlagsCommand\<close>, where positional tokens give the
  "Expected 0 args" error and \<^verbatim>\<open>Object.keys\<close> of the missing flags throws otherwise.
\<close>

definition runCommand_value :: "env \<Rightarrow> jsval \<Rightarrow> minimist_argv \<Rightarrow> unit io" where
  "runCommand_value e v argv =
     (if wantsHelp argv then io_throw (TypeError ''Cannot read property trim of undefined'')
      else
        (case v of
           JObj kvs \<Rightarrow>
             if length (positional argv) > 0
             then io_throw (CommandLineError
                    (''Expected 0 args, but given '' @ dec (length (positional argv)) @ '': ''
                       @ join '', '' (map (inspect e) (positional argv)))
                    (JArr (positional argv)))
             else io_throw (TypeError ''Cannot convert undefined or null to object'')
         | _ \<Rightarrow> io_throw (TypeError ''Cannot use the in operator on a primitive value'')))"

definition dispatch ::
  "env \<Rightarrow> renderer \<Rightarrow> string \<Rightarrow> command + jsval \<Rightarrow> minimist_argv \<Rightarrow> unit io" where
  "dispatch e rd nm loaded argv =
     (case loaded of
        Inl cmd \<Rightarrow> runCommand e rd nm cmd argv
      | Inr v \<Rightarrow> runCommand_value e v argv)"

fun collect_loaded :: "command_loaders \<Rightarrow> exn + (string \<times> command) list" where
  "collect_loaded [] = Inr []"
| "collect_loaded ((nm, Inl err) # rest) = Inl err"
| "collect_loaded ((nm, Inr c) # rest) =
     (case collect_loaded rest of Inl err \<Rightarrow> Inl err | Inr cs \<Rightarrow> Inr ((nm, c) # cs))"

definition loadAllCommands :: "command_loaders \<Rightarrow> (string \<times> command) list io" where
  "loadAllCommands loaders = (map (\<lambda>(nm, loader). CallLoader nm) loaders, collect_loaded loaders)"

text \<open>
  \<^verbatim>\<open>renderCompactTable\<close> drops the first row of its data, the header. With no command
  loaded the table of commands is left without rows, which \<^verbatim>\<open>table\<close> refuses.
\<close>

definition getCommandLoadersUsage :: "renderer \<Rightarrow> string \<Rightarrow> command_loaders \<Rightarrow> string io" where
  "getCommandLoadersUsage rd nm commandLoaders =
     io_bind (loadAllCommands commandLoaders)
       (\<lambda>allCommands.
          if allCommands = [] then io_throw (Raised ''Table must define at least one row.'')
          else io_return (loaders_text rd nm allCommands))"

definition runLoaders ::
  "env \<Rightarrow> renderer \<Rightarrow> string \<Rightarrow> command_loaders \<Rightarrow> minimist_argv \<Rightarrow> unit io" where
  "runLoaders e rd nm commandLoaders argv =
     (let commandName = (case positional argv of [] \<Rightarrow> JUndefined | c # cs \<Rightarrow> c);
          args = (case positional argv of [] \<Rightarrow> [] | c # cs \<Rightarrow> cs);
          childArgv = argv\<lparr>positional := args\<rparr>
      in if commandName = JUndefined \<or> commandName = JStr ''help''
            \<or> (wantsHelp argv \<and> \<not> truthy commandName)
         then
           (case toString (case args of [] \<Rightarrow> JUndefined | a # as \<Rightarrow> a) of
              Inl err \<Rightarrow> io_throw err
            | Inr wantHelpAbout \<Rightarrow>
                if wantHelpAbout \<noteq> []
                then io_bind (loadCommand wantHelpAbout commandLoaders)
                       (\<lambda>loaded. dispatch e rd (nm @ '' '' @ wantHelpAbout) loaded
                                \<lparr>positional = [], named = [(''help'', JBool True)]\<rparr>)
                else io_bind (getCommandLoadersUsage rd nm commandLoaders)
                       (\<lambda>usage. io_call (Log usage) (Inr ())))
         else
           (case toString commandName of
              Inl err \<Rightarrow> io_throw err
            | Inr cn \<Rightarrow>
                io_bind (loadCommand cn commandLoaders)
                  (\<lambda>loaded. dispatch e rd (nm @ '' '' @ to_text commandName) loaded childArgv)))"

section \<open>Turning resolved flags back into arguments\<close>

fun unparseFlags_loop ::
  "env \<Rightarrow> string list \<Rightarrow> (string \<times> jsval) list \<Rightarrow> string list \<Rightarrow> string list" where
  "unparseFlags_loop e [] flags results = results"
| "unparseFlags_loop e (key # keys) flags results =
     (if obj_get flags key = JBool True
      then unparseFlags_loop e keys flags (results @ [''--'' @ key])
      else if truthy (obj_get flags key)
      then unparseFlags_loop e keys flags
             (results @ [''--'' @ key @ ''='' @ stringify e (obj_get flags key)])
      else unparseFlags_loop e keys flags results)"

definition unparseFlags ::
  "env \<Rightarrow> (string \<times> flag) list \<Rightarrow> (string \<times> jsval) list \<Rightarrow> string list" where
  "unparseFlags e flagMap flags = unparseFlags_loop e (map fst flagMap) flags []"

section \<open>The validators of \<^verbatim>\<open>validate.ts\<close>\<close>

definition validate_string :: "jsval \<Rightarrow> bool" where
  "validate_string v = (case v of JStr s \<Rightarrow> True | _ \<Rightarrow> False)"

definition validate_number :: "jsval \<Rightarrow> bool" where
  "validate_number v = (case v of JNum n \<Rightarrow> True | JNaN \<Rightarrow> True | _ \<Rightarrow> False)"

definition validate_boolean :: "jsval \<Rightarrow> bool" where
  "validate_boolean v = (case v of JBool b \<Rightarrow> True | _ \<Rightarrow> False)"

text \<open>
  \<^verbatim>\<open>===\<close> on the values of this model: equal primitives, except that \<^verbatim>\<open>NaN\<close> is
  not equal to itself; two arrays or objects written apart are never the same object.
\<close>

definition strict_equal :: "jsval \<Rightarrow> jsval \<Rightarrow> bool" where
  "strict_equal a b =
     (case a of
        JNaN \<Rightarrow> False
      | JArr xs \<Rightarrow> False
      | JObj kvs \<Rightarrow> False
      | _ \<Rightarrow> a = b)"

definition oneOf :: "jsval list \<Rightarrow> jsval \<Rightarrow> bool" where
  "oneOf options v = list_ex (\<lambda>option. strict_equal v option) options"

definition optional :: "(jsval \<Rightarrow> bool) \<Rightarrow> jsval \<Rightarrow> bool" where
  "optional fn v = (if v = JUndefined then True else fn v)"

section \<open>Example declarations\<close>

text \<open>
  A process without a terminal, and one with a terminal whose user types \<^verbatim>\<open>abc\<close> at
  every question; the prompting collaborator passes the typed text through the question's
  filter, as \<^verbatim>\<open>inquirer\<close> does. \<open>json_text\<close> is \<^verbatim>\<open>JSON.stringify\<close> on the
  primitive values of the examples, whose texts hold no character to escape.
\<close>

fun json_text :: "jsval \<Rightarrow> string" where
  "json_text (JStr s) = [CHR 0x22] @ s @ [CHR 0x22]"
| "json_text (JNum n) = int_to_string n"
| "json_text (JBool b) = (if b then ''true'' else ''false'')"
| "json_text JUndefined = ''undefined''"
| "json_text (JFun f) = ''undefined''"
| "json_text v = ''null''"

definition env0 :: env where
  "env0 = \<lparr>isTTY = False, inspect = json_text, stringify = json_text,
           ask = (\<lambda>q. Inr JUndefined), to_number = (\<lambda>s. JNaN)\<rparr>"

definition env_tty :: env where
  "env_tty = \<lparr>isTTY = True, inspect = json_text, stringify = json_text,
              ask = (\<lambda>q. q_filter q (JStr ''abc'')), to_number = (\<lambda>s. JNaN)\<rparr>"

definition plain_renderer :: renderer where
  "plain_renderer =
     \<lparr>usage_text = (\<lambda>nm cmd cells. nm @ '': '' @ join '', '' cells),
      loaders_text = (\<lambda>nm cmds. nm @ '': '' @ join '', '' (map fst cmds))\<rparr>"

text \<open>The example command of the repository, which says hello.\<close>

definition flag_name :: flag where
  "flag_name = \<lparr>description = ''What name should we greet?'', validate = validate_string,
      prompt = None, parse = None, default_producer = None\<rparr>"

definition flag_exuberant :: flag where
  "flag_exuberant = \<lparr>description = ''Are we excited?'', validate = validate_boolean,
      prompt = None, parse = None, default_producer = Some (Inr (JBool False))\<rparr>"

definition hello_flags :: "(string \<times> flag) list" where
  "hello_flags = [(''name'', flag_name), (''exuberant'', flag_exuberant)]"

definition hello :: command where
  "hello = FlagsCommand ''Say hello'' hello_flags (\<lambda>flags. Inr ())"

definition argv_extra :: minimist_argv where
  "argv_extra = \<lparr>positional = [],
       named = [(''name'', JStr ''x''), (''extra1'', JNum 1), (''extra2'', JNum 2)]\<rparr>"

definition argv_two :: minimist_argv where
  "argv_two = \<lparr>positional = [JStr ''a'', JNum 7], named = [(''name'', JStr ''Ada'')]\<rparr>"

definition arg_a :: arg where
  "arg_a = \<lparr>description = ''first'', validate = validate_string, prompt = None,
            parse = None, arg_name = ''a''\<rparr>"

definition arg_b :: arg where
  "arg_b = \<lparr>description = ''second'', validate = validate_string, prompt = None,
            parse = None, arg_name = ''b''\<rparr>"

definition arg_c :: arg where
  "arg_c = \<lparr>description = ''others'', validate = validate_string, prompt = None,
            parse = None, arg_name = ''c''\<rparr>"

definition flag_count :: flag where
  "flag_count = \<lparr>description = ''How many times?'', validate = validate_number,
      prompt = None, parse = None, default_producer = None\<rparr>"

definition flag_custom :: flag where
  "flag_custom = \<lparr>description = ''Pick a name'', validate = validate_string,
      prompt = Some (\<lambda>pa. Inr (JNum 5)), parse = None, default_producer = None\<rparr>"

definition flag_parsed :: flag where
  "flag_parsed = \<lparr>description = ''What name should we greet?'', validate = validate_string,
      prompt = None, parse = Some (\<lambda>input. Inr (JStr ''parsed'')), default_producer = None\<rparr>"

definition flag_bad_default :: flag where
  "flag_bad_default = \<lparr>description = ''Are we excited?'', validate = validate_boolean,
      prompt = None, parse = None, default_producer = Some (Inr (JStr ''no''))\<rparr>"

definition flag_throwing_parse :: flag where
  "flag_throwing_parse = \<lparr>description = ''How many times?'', validate = validate_number,
      prompt = None, parse = Some (\<lambda>input. Inl (Raised ''not a count'')),
      default_producer = Some (Inr (JNum 1))\<rparr>"

definition argv_none :: minimist_argv where
  "argv_none = \<lparr>positional = [], named = []\<rparr>"

definition argv_ada :: minimist_argv where
  "argv_ada = \<lparr>positional = [], named = [(''name'', JStr ''Ada''), (''count'', JStr ''x'')]\<rparr>"

text \<open>The calls that produce a default, and the calls that prompt.\<close>

fun is_default_call :: "event \<Rightarrow> bool" where
  "is_default_call (CallDefault nm) = True"
| "is_default_call ev = False"

fun is_prompting :: "event \<Rightarrow> bool" where
  "is_prompting (CallPrompt nm) = True"
| "is_prompting (Ask message) = True"
| "is_prompting ev = False"

definition flag_throwing_default :: flag where
  "flag_throwing_default = \<lparr>description = ''Are we excited?'', validate = validate_boolean,
      prompt = None, parse = None, default_producer = Some (Inl (Raised ''boom''))\<rparr>"

definition broken_flags :: "(string \<times> flag) list" where
  "broken_flags = [(''name'', flag_name), (''exuberant'', flag_throwing_default)]"

definition broken_hello :: command where
  "broken_hello = FlagsCommand ''Say hello'' broken_flags (\<lambda>flags. Inr ())"

definition argv_help :: minimist_argv where
  "argv_help = \<lparr>positional = [JStr ''stray''], named = [(''help'', JBool True)]\<rparr>"

definition argv_h :: minimist_argv where
  "argv_h = \<lparr>positional = [], named = [(''h'', JNum 1), (''name'', JStr ''Ada'')]\<rparr>"

definition arg_upper :: arg where
  "arg_upper = \<lparr>description = ''texts, upper-cased'', validate = validate_string, prompt = None,
      parse = Some (\<lambda>input. case input of
                                 JStr s \<Rightarrow> Inr (JStr (map (\<lambda>c. if c = CHR ''x'' then CHR ''X'' else c) s))
                               | _ \<Rightarrow> Inl (Raised ''not a text'')),
      arg_name = ''upper''\<rparr>"

definition demo :: command where
  "demo = ArgsCommand ''Demo'' [] [arg_a, arg_b] arg_c (\<lambda>flags args rest. Inr ())"

definition argv_1234 :: minimist_argv where
  "argv_1234 = \<lparr>positional = [JStr ''1'', JStr ''2'', JStr ''3'', JStr ''4''], named = []\<rparr>"

definition flag_color :: flag where
  "flag_color = \<lparr>description = ''Use colors?'', validate = validate_boolean,
      prompt = None, parse = None, default_producer = Some (Inr (JBool True))\<rparr>"

definition color_flags :: "(string \<times> flag) list" where
  "color_flags = [(''color'', flag_color), (''name'', flag_name)]"

section \<open>The \<open>io\<close> combinators\<close>

lemma io_bind_return [simp]: "io_bind (io_return x) f = f x"
  by (simp add: io_bind_def io_return_def split: prod.splits)

lemma io_bind_throw [simp]: "io_bind (io_throw err) f = io_throw err"
  by (simp add: io_bind_def io_throw_def)

lemma io_bind_assoc: "io_bind (io_bind m f) g = io_bind m (\<lambda>x. io_bind (f x) g)"
  by (cases m; simp add: io_bind_def split: prod.splits sum.splits)

lemma fst_io_bind:
  "fst (io_bind m f) = (case snd m of Inl err \<Rightarrow> fst m | Inr x \<Rightarrow> fst m @ fst (f x))"
  by (cases m; simp add: io_bind_def split: prod.splits sum.splits)

lemma snd_io_bind:
  "snd (io_bind m f) = (case snd m of Inl err \<Rightarrow> Inl err | Inr x \<Rightarrow> snd (f x))"
  by (cases m; simp add: io_bind_def split: prod.splits sum.splits)

lemma join_infix: "x \<in> set xs \<Longrightarrow> \<exists>pre post. join sep xs = pre @ x @ post"
proof (induction xs)
  case Nil
  then show ?case by simp
next
  case (Cons y ys)
  show ?case
  proof (cases "x = y")
    case True
    have "join sep (y # ys) = [] @ y @ concat (map (\<lambda>z. sep @ z) ys)"
      by (simp add: join_def)
    with True show ?thesis by blast
  next
    case False
    with Cons.prems have "x \<in> set ys" by simp
    then obtain a b where "ys = a @ x # b" by (meson split_list)
    then have "join sep (y # ys)
        = (y @ concat (map (\<lambda>z. sep @ z) a) @ sep) @ x @ concat (map (\<lambda>z. sep @ z) b)"
      by (simp add: join_def)
    then show ?thesis by blast
  qed
qed

section \<open>Surplus positional tokens\<close>

lemma parseArg_surplus:
  "i < length ts \<Longrightarrow> parseArg e i a (ts @ extra) = parseArg e i a ts"
  by (simp add: parseArg_def nth_append)

lemma parseArgs_loop_surplus:
  "i + length as \<le> length ts \<Longrightarrow>
   parseArgs_loop e as (ts @ extra) i results = parseArgs_loop e as ts i results"
proof (induction as arbitrary: i results)
  case Nil
  show ?case by simp
next
  case (Cons a as)
  then have "i < length ts" and "Suc i + length as \<le> length ts" by simp_all
  then show ?case using Cons.IH by (simp add: parseArg_surplus)
qed

text \<open>
  C10. The guard of \<^verbatim>\<open>parseArgsArray\<close> compares the number of declared specs with
  itself, so its "Expected at most ... args" branch is never taken: for every input the
  function is the loop over the declared specs, and tokens beyond the declared specs do
  not change its outcome.
\<close>

theorem parseArgsArray_never_at_most:
  "parseArgsArray e argsArray argv = parseArgs_loop e argsArray (positional argv) 0 []
   \<and> (length argsArray \<le> length ts \<longrightarrow>
        parseArgsArray e argsArray \<lparr>positional = ts @ extra, named = fl\<rparr>
          = parseArgsArray e argsArray \<lparr>positional = ts, named = fl\<rparr>)"
  by (simp add: parseArgsArray_def parseArgs_loop_surplus)

theorem parseArgsArray_never_at_most_witness:
  "length [arg_a] \<le> length [JStr ''1''] \<and>
   parseArgsArray env0 [arg_a] \<lparr>positional = [JStr ''1'', JStr ''2'', JStr ''3''], named = []\<rparr>
     = ([], Inr [JStr ''1''])"
  using parseArgsArray_never_at_most
    [of env0 "[arg_a]" "\<lparr>positional = [JStr ''1''], named = []\<rparr>" "[JStr ''1'']"
        "[JStr ''2'', JStr ''3'']" "[]"]
  by (simp add: parseArg_def tryParseValue_def arg_a_def validate_string_def
      io_return_def io_bind_def)

section \<open>Unknown flags\<close>

lemma givenFlagNames_named:
  "givenFlagNames argv = filter (\<lambda>k. k \<noteq> ''_'' \<and> k \<noteq> ''$0'') (map fst (named argv))"
  by (simp add: givenFlagNames_def argv_keys_def)

lemma unknownFlags_named:
  "unknownFlags flagSet argv
     = filter (\<lambda>k. k \<noteq> ''_'' \<and> k \<noteq> ''$0'' \<and> k \<notin> fst ` set flagSet) (map fst (named argv))"
  by (simp add: unknownFlags_def givenFlagNames_named conj_commute conj_left_commute)

text \<open>
  C4. \<^verbatim>\<open>parseFlagMap\<close> takes the given flag names to be the keys of the raw arguments
  other than \<^verbatim>\<open>_\<close> and \<^verbatim>\<open>$0\<close>. When one of them is not declared it fails, having
  called no collaborator and resolved no flag, with one error whose message and details
  list every undeclared name, in the order given.
\<close>

theorem parseFlagMap_unknown_flags:
  assumes "unknownFlags flagSet argv \<noteq> []"
  shows "parseFlagMap e flagSet argv
           = ([], Inl (CommandLineError
                 (''Unknown flags given: ''
                    @ join '', '' (map (\<lambda>nm. ''--'' @ nm) (unknownFlags flagSet argv)))
                 (JArr (map JStr (unknownFlags flagSet argv)))))
         \<and> unknownFlags flagSet argv
           = filter (\<lambda>k. k \<noteq> ''_'' \<and> k \<noteq> ''$0'' \<and> k \<notin> fst ` set flagSet) (map fst (named argv))
         \<and> (\<forall>k\<in>set (unknownFlags flagSet argv). \<exists>pre post.
               ''Unknown flags given: ''
                  @ join '', '' (map (\<lambda>nm. ''--'' @ nm) (unknownFlags flagSet argv))
               = pre @ ''--'' @ k @ post)"
proof (intro conjI ballI)
  show "parseFlagMap e flagSet argv
           = ([], Inl (CommandLineError
                 (''Unknown flags given: ''
                    @ join '', '' (map (\<lambda>nm. ''--'' @ nm) (unknownFlags flagSet argv)))
                 (JArr (map JStr (unknownFlags flagSet argv)))))"
    unfolding parseFlagMap_def Let_def io_throw_def length_greater_0_conv
    by (rule if_P) (rule assms)
next
  show "unknownFlags flagSet argv
           = filter (\<lambda>k. k \<noteq> ''_'' \<and> k \<noteq> ''$0'' \<and> k \<notin> fst ` set flagSet) (map fst (named argv))"
    by (rule unknownFlags_named)
next
  fix k assume "k \<in> set (unknownFlags flagSet argv)"
  then have "''--'' @ k \<in> set (map (\<lambda>nm. ''--'' @ nm) (unknownFlags flagSet argv))"
    by simp
  from join_infix [OF this, of "'', ''"] obtain pre post where
    "join '', '' (map (\<lambda>nm. ''--'' @ nm) (unknownFlags flagSet argv)) = pre @ (''--'' @ k) @ post"
    by blast
  then have "''Unknown flags given: ''
                  @ join '', '' (map (\<lambda>nm. ''--'' @ nm) (unknownFlags flagSet argv))
               = (''Unknown flags given: '' @ pre) @ ''--'' @ k @ post"
    by simp
  then show "\<exists>pre post. ''Unknown flags given: ''
                  @ join '', '' (map (\<lambda>nm. ''--'' @ nm) (unknownFlags flagSet argv))
               = pre @ ''--'' @ k @ post"
    by blast
qed

lemma unknown_extra: "unknownFlags [(''name'', flag_name)] argv_extra = [''extra1'', ''extra2'']"
  by (simp add: unknownFlags_def givenFlagNames_def argv_keys_def argv_extra_def)

theorem parseFlagMap_unknown_flags_witness:
  "unknownFlags [(''name'', flag_name)] argv_extra \<noteq> [] \<and>
   parseFlagMap env0 [(''name'', flag_name)] argv_extra
     = ([], Inl (CommandLineError ''Unknown flags given: --extra1, --extra2''
                   (JArr [JStr ''extra1'', JStr ''extra2''])))"
proof -
  have h: "unknownFlags [(''name'', flag_name)] argv_extra \<noteq> []"
    by (simp add: unknown_extra)
  from parseFlagMap_unknown_flags [OF h, of env0, THEN conjunct1] h
  show ?thesis by (simp add: unknown_extra join_def)
qed

section \<open>A flags-only command given positional tokens\<close>

text \<open>
  C8. For a \<^verbatim>\<open>FlagsCommand\<close> and raw arguments without a help flag, a non-empty list
  of positional tokens makes \<^verbatim>\<open>runCommand\<close> fail with the "Expected 0 args" error,
  whose message prints every token; no collaborator has been called by then, so no flag
  was resolved and the handler was not invoked.
\<close>

theorem runCommand_expected_0_args:
  assumes "\<not> wantsHelp argv" and "positional argv \<noteq> []"
  shows "runCommand e rd nm (FlagsCommand d fl run) argv
           = ([], Inl (CommandLineError
                 (''Expected 0 args, but given '' @ dec (length (positional argv)) @ '': ''
                    @ join '', '' (map (inspect e) (positional argv)))
                 (JArr (positional argv))))
         \<and> (\<forall>t\<in>set (positional argv). \<exists>pre post.
               ''Expected 0 args, but given '' @ dec (length (positional argv)) @ '': ''
                    @ join '', '' (map (inspect e) (positional argv))
               = pre @ inspect e t @ post)"
proof (intro conjI ballI)
  show "runCommand e rd nm (FlagsCommand d fl run) argv
           = ([], Inl (CommandLineError
                 (''Expected 0 args, but given '' @ dec (length (positional argv)) @ '': ''
                    @ join '', '' (map (inspect e) (positional argv)))
                 (JArr (positional argv))))"
    using assms by (simp add: runCommand_def io_throw_def)
next
  fix t assume "t \<in> set (positional argv)"
  then have "inspect e t \<in> set (map (inspect e) (positional argv))" by simp
  from join_infix [OF this, of "'', ''"] obtain pre post where
    "join '', '' (map (inspect e) (positional argv)) = pre @ inspect e t @ post"
    by blast
  then have "''Expected 0 args, but given '' @ dec (length (positional argv)) @ '': ''
                    @ join '', '' (map (inspect e) (positional argv))
      = (''Expected 0 args, but given '' @ dec (length (positional argv)) @ '': '' @ pre)
          @ inspect e t @ post"
    by simp
  then show "\<exists>pre post.
               ''Expected 0 args, but given '' @ dec (length (positional argv)) @ '': ''
                    @ join '', '' (map (inspect e) (positional argv))
               = pre @ inspect e t @ post"
    by blast
qed

lemma dec_small: "n < 10 \<Longrightarrow> dec n = [digit_char n]"
  by (simp add: dec.simps)

theorem runCommand_expected_0_args_witness:
  "\<not> wantsHelp argv_two \<and> positional argv_two \<noteq> [] \<and>
   runCommand env0 plain_renderer ''hello'' hello argv_two
     = ([], Inl (CommandLineError
          (''Expected 0 args, but given 2: '' @ [CHR 0x22] @ ''a'' @ [CHR 0x22] @ '', 7'')
          (JArr [JStr ''a'', JNum 7])))"
proof -
  have h1: "\<not> wantsHelp argv_two"
    by (simp add: wantsHelp_def argv_get_def inherited_def object_prototype_names_def argv_two_def)
  have h2: "positional argv_two \<noteq> []"
    by (simp add: argv_two_def)
  from runCommand_expected_0_args [OF h1 h2, of env0 plain_renderer "''hello''" "''Say hello''" hello_flags
      "\<lambda>flags. Inr ()", THEN conjunct1] h1 h2
  show ?thesis
    by (simp add: argv_two_def hello_def env0_def join_def dec_small digit_char_def
        int_to_string_def)
qed

section \<open>The prompt path\<close>

lemma tryParseValue_cases:
  "tryParseValue e nm spec raw =
     (case parse spec of
        None \<Rightarrow>
          if validate spec raw then ([], Inr raw)
          else ([], Inl (CommandLineError (nm @ '': invalid value: '' @ inspect e raw @ '')'') raw))
      | Some p \<Rightarrow>
          (case p raw of
             Inl err \<Rightarrow>
               ([CallParse nm raw],
                Inl (CommandLineError
                       (nm @ '': cannot parse '' @ inspect e raw @ '': '' @ exn_message err) raw))
           | Inr v \<Rightarrow>
               if validate spec v then ([CallParse nm raw], Inr v)
               else ([CallParse nm raw],
                     Inl (CommandLineError (nm @ '': invalid value: '' @ inspect e v @ '')'') v))))"
  by (simp add: tryParseValue_def io_bind_def io_return_def io_throw_def
      split: option.splits sum.splits)

lemma tryParseValue_not_prompt_error:
  "snd (tryParseValue e nm spec raw)
     \<noteq> Inl (CommandLineError (nm @ '': prompting returned invalid value: '' @ s) d)"
  by (simp add: tryParseValue_cases split: option.splits sum.splits)

lemma q_message_prompt_question [simp]:
  "q_message (prompt_question e nm spec) = nm @ '': '' @ description spec"
  by (simp add: prompt_question_def Let_def)

lemma q_filter_prompt_question [simp]:
  "q_filter (prompt_question e nm spec)
     = (case parse spec of Some p \<Rightarrow> p | None \<Rightarrow> defaultParser e)"
  by (simp add: prompt_question_def Let_def)

lemma tryPrompt_not_interactive:
  "\<not> interactive e \<Longrightarrow>
   tryPrompt e nm spec
     = ([], Inl (CommandLineError
          (nm @ '': Required but not given (and cannot prompt in non-iteractive mode)'')
          (JStr nm)))"
  by (simp add: tryPrompt_def io_throw_def)

text \<open>
  C7. On a process without an interactive terminal the prompt path fails at once, before
  any collaborator is called, with the "Required but not given" error; this is what a
  flag that \<^verbatim>\<open>name in argv\<close> does not find and that has no default, and a
  positional spec without a token, come to. A value returned by the custom prompt function or by the prompting
  collaborator that fails \<^verbatim>\<open>validate\<close> gives the "prompting returned invalid value"
  error, whose message no error of \<^verbatim>\<open>tryParseValue\<close> under the same label has, and
  which differs from the "Required but not given" message.
\<close>

theorem tryPrompt_errors:
  "(\<not> interactive e \<longrightarrow>
      tryPrompt e nm spec
        = ([], Inl (CommandLineError
             (nm @ '': Required but not given (and cannot prompt in non-iteractive mode)'')
             (JStr nm))))
   \<and> (\<not> interactive e \<and> \<not> argv_has argv n \<and> default_producer f = None \<longrightarrow>
      parseFlag e n f argv
        = ([], Inl (CommandLineError
             (''--'' @ n @ '': Required but not given (and cannot prompt in non-iteractive mode)'')
             (JStr (''--'' @ n)))))
   \<and> (\<not> interactive e \<and> length given \<le> i \<longrightarrow>
      parseArg e i a given
        = ([], Inl (CommandLineError
             (''arg '' @ dec (i + 1) @ '' ('' @ arg_name a @ '')''
                @ '': Required but not given (and cannot prompt in non-iteractive mode)'')
             (JStr (''arg '' @ dec (i + 1) @ '' ('' @ arg_name a @ '')'')))))
   \<and> (interactive e \<and> prompt spec = Some custom
        \<and> custom \<lparr>pa_prompt = ask e, pa_question = prompt_question e nm spec\<rparr> = Inr v
        \<and> \<not> validate spec v \<longrightarrow>
      tryPrompt e nm spec
        = ([CallPrompt nm],
           Inl (CommandLineError (nm @ '': prompting returned invalid value: '' @ inspect e v) v)))
   \<and> (interactive e \<and> prompt spec = None \<and> ask e (prompt_question e nm spec) = Inr v
        \<and> \<not> validate spec v \<longrightarrow>
      tryPrompt e nm spec
        = ([Ask (nm @ '': '' @ description spec)],
           Inl (CommandLineError (nm @ '': prompting returned invalid value: '' @ inspect e v) v)))
   \<and> snd (tryParseValue e nm spec2 raw)
        \<noteq> Inl (CommandLineError (nm @ '': prompting returned invalid value: '' @ s) d)
   \<and> nm @ '': prompting returned invalid value: '' @ s
        \<noteq> nm @ '': Required but not given (and cannot prompt in non-iteractive mode)''"
proof (intro conjI impI)
  assume "\<not> interactive e"
  then show "tryPrompt e nm spec
        = ([], Inl (CommandLineError
             (nm @ '': Required but not given (and cannot prompt in non-iteractive mode)'')
             (JStr nm)))"
    by (rule tryPrompt_not_interactive)
next
  assume "\<not> interactive e \<and> \<not> argv_has argv n \<and> default_producer f = None"
  then show "parseFlag e n f argv
        = ([], Inl (CommandLineError
             (''--'' @ n @ '': Required but not given (and cannot prompt in non-iteractive mode)'')
             (JStr (''--'' @ n))))"
    by (simp add: parseFlag_def tryPrompt_not_interactive del: append.simps)
next
  assume "\<not> interactive e \<and> length given \<le> i"
  then show "parseArg e i a given
        = ([], Inl (CommandLineError
             (''arg '' @ dec (i + 1) @ '' ('' @ arg_name a @ '')''
                @ '': Required but not given (and cannot prompt in non-iteractive mode)'')
             (JStr (''arg '' @ dec (i + 1) @ '' ('' @ arg_name a @ '')''))))"
    by (simp add: parseArg_def tryPrompt_not_interactive del: append.simps)
next
  assume "interactive e \<and> prompt spec = Some custom
        \<and> custom \<lparr>pa_prompt = ask e, pa_question = prompt_question e nm spec\<rparr> = Inr v
        \<and> \<not> validate spec v"
  then show "tryPrompt e nm spec
        = ([CallPrompt nm],
           Inl (CommandLineError (nm @ '': prompting returned invalid value: '' @ inspect e v) v))"
    by (simp add: tryPrompt_def io_bind_def io_call_def io_throw_def)
next
  assume "interactive e \<and> prompt spec = None \<and> ask e (prompt_question e nm spec) = Inr v
        \<and> \<not> validate spec v"
  then show "tryPrompt e nm spec
        = ([Ask (nm @ '': '' @ description spec)],
           Inl (CommandLineError (nm @ '': prompting returned invalid value: '' @ inspect e v) v))"
    by (simp add: tryPrompt_def io_bind_def io_call_def io_throw_def)
next
  show "snd (tryParseValue e nm spec2 raw)
        \<noteq> Inl (CommandLineError (nm @ '': prompting returned invalid value: '' @ s) d)"
    by (rule tryParseValue_not_prompt_error)
next
  show "nm @ '': prompting returned invalid value: '' @ s
        \<noteq> nm @ '': Required but not given (and cannot prompt in non-iteractive mode)''"
    by simp
qed

lemma defaultParser_abc: "defaultParser e (JStr ''abc'') = Inr (JStr ''abc'')"
  by (simp add: defaultParser_def isNumber_def toString_def match_hex_def match_decimal_def
      is_digit_def is_hex_digit_def)

theorem tryPrompt_errors_witness:
  "\<not> interactive env0
   \<and> \<not> argv_has argv_none ''name'' \<and> default_producer flag_name = None
   \<and> parseFlag env0 ''name'' flag_name argv_none
       = ([], Inl (CommandLineError
            ''--name: Required but not given (and cannot prompt in non-iteractive mode)''
            (JStr ''--name'')))
   \<and> length ([] :: jsval list) \<le> 0
   \<and> parseArg env0 0 arg_a []
       = ([], Inl (CommandLineError
            ''arg 1 (a): Required but not given (and cannot prompt in non-iteractive mode)''
            (JStr ''arg 1 (a)'')))
   \<and> interactive env_tty
   \<and> tryPrompt env_tty ''--custom'' flag_custom
       = ([CallPrompt ''--custom''],
          Inl (CommandLineError ''--custom: prompting returned invalid value: 5'' (JNum 5)))
   \<and> tryPrompt env_tty ''--count'' flag_count
       = ([Ask ''--count: How many times?''],
          Inl (CommandLineError
            (''--count: prompting returned invalid value: '' @ [CHR 0x22] @ ''abc'' @ [CHR 0x22])
            (JStr ''abc'')))"
proof -
  have n0: "\<not> interactive env0" by (simp add: interactive_def env0_def)
  have t1: "interactive env_tty" by (simp add: interactive_def env_tty_def)
  have h2: "\<not> interactive env0 \<and> \<not> argv_has argv_none ''name'' \<and> default_producer flag_name = None"
    using n0 by (simp add: argv_has_def
        object_prototype_names_def argv_keys_def argv_none_def flag_name_def)
  have h3: "\<not> interactive env0 \<and> length ([] :: jsval list) \<le> 0"
    using n0 by simp
  have h4: "interactive env_tty \<and> prompt flag_custom = Some (\<lambda>pa. Inr (JNum 5))
        \<and> (\<lambda>pa. Inr (JNum 5))
             \<lparr>pa_prompt = ask env_tty, pa_question = prompt_question env_tty ''--custom'' flag_custom\<rparr>
            = Inr (JNum 5)
        \<and> \<not> validate flag_custom (JNum 5)"
    using t1 by (simp add: flag_custom_def validate_string_def)
  have h5: "interactive env_tty \<and> prompt flag_count = None
        \<and> ask env_tty (prompt_question env_tty ''--count'' flag_count) = Inr (JStr ''abc'')
        \<and> \<not> validate flag_count (JStr ''abc'')"
    using t1 by (simp add: flag_count_def validate_number_def env_tty_def defaultParser_abc)
  note th = tryPrompt_errors
  have c2: "parseFlag env0 ''name'' flag_name argv_none
       = ([], Inl (CommandLineError
            ''--name: Required but not given (and cannot prompt in non-iteractive mode)''
            (JStr ''--name'')))"
    using th [of env0 _ _ argv_none "''name''" flag_name, THEN conjunct2, THEN conjunct1] h2
    by simp
  have c3: "parseArg env0 0 arg_a []
       = ([], Inl (CommandLineError
            ''arg 1 (a): Required but not given (and cannot prompt in non-iteractive mode)''
            (JStr ''arg 1 (a)'')))"
    using th [of env0 _ _ _ _ _ "[]" 0 arg_a, THEN conjunct2, THEN conjunct2, THEN conjunct1] h3
    by (simp add: dec_small digit_char_def arg_a_def)
  have c4: "tryPrompt env_tty ''--custom'' flag_custom
       = ([CallPrompt ''--custom''],
          Inl (CommandLineError ''--custom: prompting returned invalid value: 5'' (JNum 5)))"
    using th [of env_tty "''--custom''" flag_custom _ _ _ _ _ _ "\<lambda>pa. Inr (JNum 5)" "JNum 5",
        THEN conjunct2, THEN conjunct2, THEN conjunct2, THEN conjunct1] h4
    by (simp add: env_tty_def int_to_string_def dec_small digit_char_def)
  have c5: "tryPrompt env_tty ''--count'' flag_count
       = ([Ask ''--count: How many times?''],
          Inl (CommandLineError
            (''--count: prompting returned invalid value: '' @ [CHR 0x22] @ ''abc'' @ [CHR 0x22])
            (JStr ''abc'')))"
    using th [of env_tty "''--count''" flag_count _ _ _ _ _ _ _ "JStr ''abc''",
        THEN conjunct2, THEN conjunct2, THEN conjunct2, THEN conjunct2, THEN conjunct1] h5
    by (simp add: env_tty_def flag_count_def)
  from n0 h2 c2 c3 t1 c4 c5 show ?thesis by simp
qed

section \<open>Resolving one flag\<close>

lemma tryParseValue_events:
  "ev \<in> set (fst (tryParseValue e nm spec raw)) \<Longrightarrow> ev = CallParse nm raw"
  by (simp add: tryParseValue_cases split: option.splits sum.splits if_splits)

lemma parseFlag_given:
  "argv_has argv n \<Longrightarrow>
   parseFlag e n f argv = tryParseValue e (''--'' @ n) f (argv_get argv n)"
  by (simp add: parseFlag_def)

lemma parseFlag_default:
  "\<not> argv_has argv n \<Longrightarrow> default_producer f = Some d \<Longrightarrow>
   parseFlag e n f argv =
     (case d of
        Inl err \<Rightarrow> ([CallDefault n], Inl err)
      | Inr v \<Rightarrow>
          if validate f v then ([CallDefault n], Inr v)
          else ([CallDefault n],
                Inl (CommandLineError
                       (''--'' @ n @ '': BUG: the default value was invalid: '' @ inspect e v) v)))"
  by (simp add: parseFlag_def io_bind_def io_call_def io_return_def io_throw_def
      split: sum.splits)

lemma parseFlag_missing_no_default:
  "\<not> argv_has argv n \<Longrightarrow> default_producer f = None \<Longrightarrow>
   parseFlag e n f argv = tryPrompt e (''--'' @ n) f"
  by (simp add: parseFlag_def)


lemma argv_has_ada:
  "argv_has argv_ada ''name''" "argv_has argv_ada ''count''" "\<not> argv_has argv_ada ''exuberant''"
  by (simp_all add: argv_has_def object_prototype_names_def argv_keys_def argv_ada_def)



section \<open>The order of resolution in a flag map\<close>

lemma parseFlags_loop_append:
  "parseFlags_loop e flagSet argv (xs @ ys) result
     = io_bind (parseFlags_loop e flagSet argv xs result)
         (\<lambda>r. parseFlags_loop e flagSet argv ys r)"
proof (induction xs arbitrary: result)
  case Nil
  show ?case by simp
next
  case (Cons x xs)
  show ?case
    by (cases "map_of flagSet x") (simp_all add: Cons.IH io_bind_assoc)
qed

lemma tryPrompt_events:
  "ev \<in> set (fst (tryPrompt e nm spec)) \<Longrightarrow> is_prompting ev"
  by (auto simp add: tryPrompt_def Let_def io_throw_def io_call_def fst_io_bind
      io_return_def split: if_splits option.splits sum.splits)

lemma parseFlag_defaultable_events:
  assumes "default_producer f \<noteq> None" and "ev \<in> set (fst (parseFlag e n f argv))"
  shows "\<not> is_prompting ev"
proof (cases "argv_has argv n")
  case True
  with assms(2) have "ev = CallParse (''--'' @ n) (argv_get argv n)"
    by (simp only: parseFlag_given tryParseValue_events)
  then show ?thesis by simp
next
  case False
  from assms(1) obtain d where "default_producer f = Some d" by blast
  with False assms(2) show ?thesis
    by (auto simp add: parseFlag_default split: sum.splits if_splits)
qed

lemma parseFlag_nondefaultable_events:
  assumes "default_producer f = None" and "ev \<in> set (fst (parseFlag e n f argv))"
  shows "\<not> is_default_call ev"
proof (cases "argv_has argv n")
  case True
  with assms(2) have "ev = CallParse (''--'' @ n) (argv_get argv n)"
    by (simp only: parseFlag_given tryParseValue_events)
  then show ?thesis by simp
next
  case False
  with assms have "is_prompting ev"
    by (simp add: parseFlag_missing_no_default tryPrompt_events)
  then show ?thesis by (cases ev) simp_all
qed

lemma parseFlag_defaultable_calls:
  assumes "default_producer f \<noteq> None" and "snd (parseFlag e n f argv) = Inr v"
  shows "filter is_default_call (fst (parseFlag e n f argv))
           = (if argv_has argv n then [] else [CallDefault n])"
proof (cases "argv_has argv n")
  case True
  have "\<forall>ev\<in>set (fst (parseFlag e n f argv)). \<not> is_default_call ev"
  proof
    fix ev assume "ev \<in> set (fst (parseFlag e n f argv))"
    with True have "ev = CallParse (''--'' @ n) (argv_get argv n)"
      by (simp only: parseFlag_given tryParseValue_events)
    then show "\<not> is_default_call ev" by simp
  qed
  with True show ?thesis by (simp add: filter_empty_conv)
next
  case False
  from assms(1) obtain d where "default_producer f = Some d" by blast
  with False show ?thesis
    by (auto simp add: parseFlag_default split: sum.splits if_splits)
qed

lemma loop_defaultable_events:
  "\<forall>n\<in>set ns. has_default flagSet n \<Longrightarrow>
   ev \<in> set (fst (parseFlags_loop e flagSet argv ns result)) \<Longrightarrow> \<not> is_prompting ev"
proof (induction ns arbitrary: result)
  case Nil
  then show ?case by (simp add: io_return_def)
next
  case (Cons n ns)
  from Cons.prems(1) obtain f where f: "map_of flagSet n = Some f" "default_producer f \<noteq> None"
    by (auto simp add: has_default_def split: option.splits)
  from Cons.prems(1) have rest: "\<forall>n\<in>set ns. has_default flagSet n" by simp
  from Cons.prems(2) f(1) show ?case
    using parseFlag_defaultable_events [OF f(2)] Cons.IH [OF rest]
    by (auto simp add: fst_io_bind split: sum.splits)
qed

lemma loop_nondefaultable_events:
  "\<forall>n\<in>set ns. \<not> has_default flagSet n \<Longrightarrow>
   ev \<in> set (fst (parseFlags_loop e flagSet argv ns result)) \<Longrightarrow> \<not> is_default_call ev"
proof (induction ns arbitrary: result)
  case Nil
  then show ?case by (simp add: io_return_def)
next
  case (Cons n ns)
  from Cons.prems(1) have rest: "\<forall>n\<in>set ns. \<not> has_default flagSet n" by simp
  show ?case
  proof (cases "map_of flagSet n")
    case None
    with Cons.prems(2) show ?thesis by (simp add: io_throw_def)
  next
    case (Some f)
    with Cons.prems(1) have "default_producer f = None"
      by (simp add: has_default_def)
    from Cons.prems(2) Some show ?thesis
      using parseFlag_nondefaultable_events [OF \<open>default_producer f = None\<close>] Cons.IH [OF rest]
      by (auto simp add: fst_io_bind split: sum.splits)
  qed
qed

lemma loop_defaultable_calls:
  "\<forall>n\<in>set ns. has_default flagSet n \<Longrightarrow>
   snd (parseFlags_loop e flagSet argv ns result) = Inr r \<Longrightarrow>
   filter is_default_call (fst (parseFlags_loop e flagSet argv ns result))
     = map CallDefault (filter (\<lambda>n. \<not> argv_has argv n) ns)"
proof (induction ns arbitrary: result)
  case Nil
  then show ?case by (simp add: io_return_def)
next
  case (Cons n ns)
  from Cons.prems(1) obtain f where f: "map_of flagSet n = Some f" "default_producer f \<noteq> None"
    by (auto simp add: has_default_def split: option.splits)
  from Cons.prems(1) have rest: "\<forall>n\<in>set ns. has_default flagSet n" by simp
  from Cons.prems(2) f(1) obtain v where
    v: "snd (parseFlag e n f argv) = Inr v"
    and r: "snd (parseFlags_loop e flagSet argv ns (obj_set result n v)) = Inr r"
    by (auto simp add: snd_io_bind split: sum.splits)
  from parseFlag_defaultable_calls [OF f(2) v] Cons.IH [OF rest r] f(1) v
  show ?case
    by (simp add: fst_io_bind)
qed



section \<open>Help\<close>

lemma usage_defaults_events:
  "ev \<in> set (fst (usage_defaults e flags ns cells)) \<Longrightarrow> is_default_call ev"
proof (induction ns arbitrary: cells)
  case Nil
  then show ?case by (simp add: io_return_def)
next
  case (Cons n ns)
  show ?case
  proof (cases "map_of flags n")
    case None
    with Cons.prems show ?thesis by (simp add: io_throw_def)
  next
    case (Some f)
    with Cons.prems Cons.IH show ?thesis
      by (auto simp add: fst_io_bind snd_io_bind io_call_def io_return_def
          split: sum.splits option.splits)
  qed
qed

lemma usage_defaults_ok:
  assumes "\<forall>n\<in>set ns. \<exists>f. map_of flags n = Some f \<and> (\<forall>err. default_producer f \<noteq> Some (Inl err))"
  shows "usage_defaults e flags ns cells
           = (map CallDefault (filter (\<lambda>n. has_default flags n) ns),
              Inr (cells @ map (\<lambda>n. case map_of flags n of
                                       Some f \<Rightarrow> (case default_producer f of
                                                    Some (Inr v) \<Rightarrow> inspect e v
                                                  | _ \<Rightarrow> ''Prompts.'')
                                     | None \<Rightarrow> ''Prompts.'') ns))"
  using assms
proof (induction ns arbitrary: cells)
  case Nil
  show ?case by (simp add: io_return_def)
next
  case (Cons n ns)
  from Cons.prems obtain f where f: "map_of flags n = Some f"
    and ok: "\<forall>err. default_producer f \<noteq> Some (Inl err)" by auto
  from Cons.prems have rest:
    "\<forall>n\<in>set ns. \<exists>f. map_of flags n = Some f \<and> (\<forall>err. default_producer f \<noteq> Some (Inl err))"
    by simp
  show ?case
  proof (cases "default_producer f")
    case None
    from Cons.IH [OF rest, of "cells @ [''Prompts.'']"] f None show ?thesis
      by (simp add: has_default_def)
  next
    case (Some d)
    with ok obtain v where v: "d = Inr v" by (cases d) auto
    from Cons.IH [OF rest, of "cells @ [inspect e v]"] f Some v show ?thesis
      by (simp add: has_default_def io_bind_def io_call_def io_return_def)
  qed
qed

lemma usage_defaults_throws:
  assumes "\<forall>k\<in>set pre. \<exists>g. map_of flags k = Some g \<and> (\<forall>x. default_producer g \<noteq> Some (Inl x))"
    and "map_of flags n = Some f" and "default_producer f = Some (Inl err)"
  shows "usage_defaults e flags (pre @ n # post) cells
           = (map CallDefault (filter (\<lambda>k. has_default flags k) pre) @ [CallDefault n], Inl err)"
  using assms(1)
proof (induction pre arbitrary: cells)
  case Nil
  from assms(2,3) show ?case
    by (simp add: io_bind_def io_call_def)
next
  case (Cons k pre)
  from Cons.prems obtain g where g: "map_of flags k = Some g"
    and ok: "\<forall>x. default_producer g \<noteq> Some (Inl x)" by auto
  from Cons.prems have rest:
    "\<forall>k\<in>set pre. \<exists>g. map_of flags k = Some g \<and> (\<forall>x. default_producer g \<noteq> Some (Inl x))"
    by simp
  show ?case
  proof (cases "default_producer g")
    case None
    from Cons.IH [OF rest, of "cells @ [''Prompts.'']"] g None show ?thesis
      by (simp add: has_default_def)
  next
    case (Some d)
    with ok obtain v where v: "d = Inr v" by (cases d) auto
    from Cons.IH [OF rest, of "cells @ [inspect e v]"] g Some v show ?thesis
      by (simp add: has_default_def io_bind_def io_call_def io_return_def)
  qed
qed

lemma runCommand_wantsHelp:
  "wantsHelp argv \<Longrightarrow>
   runCommand e rd nm cmd argv
     = io_bind (getCommandUsage e rd nm cmd) (\<lambda>usage. io_call (Log usage) (Inr ()))"
  by (simp add: runCommand_def)

text \<open>
  C5, as the code has it. With a truthy \<^verbatim>\<open>help\<close>, \<^verbatim>\<open>h\<close> or \<^verbatim>\<open>?\<close>,
  \<^verbatim>\<open>runCommand\<close> does the same whatever else the raw arguments hold. The only calls it
  makes are to the default producers of the command's flags, whose values fill the
  Default column of the help, and to the logger: the handler is not invoked, no raw value
  is parsed, nothing is prompted. Usage is logged exactly when it returns normally. When
  no default producer throws, every flag with a default has its producer called, in
  declaration order, and the usage text is logged once. When a default producer throws,
  the producers of the flags declared before it have been called, its error is the
  outcome, and nothing is logged.
\<close>

theorem runCommand_help:
  assumes "wantsHelp argv"
  shows "runCommand e rd nm cmd argv
           = runCommand e rd nm cmd \<lparr>positional = [], named = [(''help'', JBool True)]\<rparr>
         \<and> (\<forall>ev\<in>set (fst (runCommand e rd nm cmd argv)). is_default_call ev \<or> (\<exists>u. ev = Log u))
         \<and> ((\<exists>u. Log u \<in> set (fst (runCommand e rd nm cmd argv)))
              \<longleftrightarrow> snd (runCommand e rd nm cmd argv) = Inr ())
         \<and> ((\<forall>n f err. map_of (command_flags cmd) n = Some f \<longrightarrow> default_producer f \<noteq> Some (Inl err))
              \<longrightarrow> runCommand e rd nm cmd argv
                     = (map CallDefault
                          (filter (\<lambda>n. has_default (command_flags cmd) n) (map fst (command_flags cmd)))
                          @ [Log (usage_text rd nm cmd
                                (map (\<lambda>n. case map_of (command_flags cmd) n of
                                             Some f \<Rightarrow> (case default_producer f of
                                                          Some (Inr v) \<Rightarrow> inspect e v
                                                        | _ \<Rightarrow> ''Prompts.'')
                                           | None \<Rightarrow> ''Prompts.'')
                                   (map fst (command_flags cmd))))],
                        Inr ()))
         \<and> (map fst (command_flags cmd) = pre @ n # post
              \<and> (\<forall>k g x. k \<in> set pre \<and> map_of (command_flags cmd) k = Some g
                    \<longrightarrow> default_producer g \<noteq> Some (Inl x))
              \<and> map_of (command_flags cmd) n = Some f \<and> default_producer f = Some (Inl err)
              \<longrightarrow> runCommand e rd nm cmd argv
                     = (map CallDefault (filter (\<lambda>k. has_default (command_flags cmd) k) pre)
                          @ [CallDefault n],
                        Inl err))"
proof -
  define m where "m = usage_defaults e (command_flags cmd) (map fst (command_flags cmd)) []"
  have h0: "wantsHelp \<lparr>positional = [], named = [(''help'', JBool True)]\<rparr>"
    by (simp add: wantsHelp_def argv_get_def inherited_def object_prototype_names_def)
  have run: "runCommand e rd nm cmd argv
      = (case snd m of
           Inl err \<Rightarrow> (fst m, Inl err)
         | Inr cells \<Rightarrow> (fst m @ [Log (usage_text rd nm cmd cells)], Inr ()))"
    using assms
    by (cases m) (simp add: runCommand_wantsHelp getCommandUsage_def m_def [symmetric] io_bind_def
        io_call_def io_return_def split: sum.splits)
  have ev: "\<forall>ev\<in>set (fst m). is_default_call ev"
    using usage_defaults_events by (auto simp add: m_def)
  have known: "\<exists>g. map_of (command_flags cmd) k = Some g"
    if "k \<in> set (map fst (command_flags cmd))" for k
    using that by (cases "map_of (command_flags cmd) k") (auto simp add: map_of_eq_None_iff)
  have c1: "runCommand e rd nm cmd argv
           = runCommand e rd nm cmd \<lparr>positional = [], named = [(''help'', JBool True)]\<rparr>"
    using assms h0 by (simp add: runCommand_wantsHelp)
  have c2: "\<forall>ev\<in>set (fst (runCommand e rd nm cmd argv)). is_default_call ev \<or> (\<exists>u. ev = Log u)"
    using ev by (auto simp add: run split: sum.splits)
  have c3: "(\<exists>u. Log u \<in> set (fst (runCommand e rd nm cmd argv)))
              \<longleftrightarrow> snd (runCommand e rd nm cmd argv) = Inr ()"
    using ev by (auto simp add: run split: sum.splits)
  have c4: "runCommand e rd nm cmd argv
                     = (map CallDefault
                          (filter (\<lambda>n. has_default (command_flags cmd) n) (map fst (command_flags cmd)))
                          @ [Log (usage_text rd nm cmd
                                (map (\<lambda>n. case map_of (command_flags cmd) n of
                                             Some f \<Rightarrow> (case default_producer f of
                                                          Some (Inr v) \<Rightarrow> inspect e v
                                                        | _ \<Rightarrow> ''Prompts.'')
                                           | None \<Rightarrow> ''Prompts.'')
                                   (map fst (command_flags cmd))))],
                        Inr ())"
    if ok: "\<forall>n f err. map_of (command_flags cmd) n = Some f \<longrightarrow> default_producer f \<noteq> Some (Inl err)"
  proof -
    have "\<forall>n\<in>set (map fst (command_flags cmd)).
            \<exists>f. map_of (command_flags cmd) n = Some f \<and> (\<forall>err. default_producer f \<noteq> Some (Inl err))"
      using known ok by blast
    from usage_defaults_ok [OF this, of e "[]"] show ?thesis
      by (simp add: run m_def)
  qed
  have c5: "runCommand e rd nm cmd argv
                     = (map CallDefault (filter (\<lambda>k. has_default (command_flags cmd) k) pre)
                          @ [CallDefault n],
                        Inl err)"
    if names: "map fst (command_flags cmd) = pre @ n # post"
      and ok: "\<forall>k g x. k \<in> set pre \<and> map_of (command_flags cmd) k = Some g
                    \<longrightarrow> default_producer g \<noteq> Some (Inl x)"
      and f: "map_of (command_flags cmd) n = Some f" "default_producer f = Some (Inl err)"
  proof -
    have "\<forall>k\<in>set pre. \<exists>g. map_of (command_flags cmd) k = Some g
            \<and> (\<forall>x. default_producer g \<noteq> Some (Inl x))"
    proof
      fix k assume k: "k \<in> set pre"
      then have "k \<in> set (map fst (command_flags cmd))" by (simp add: names)
      from known [OF this] obtain g where "map_of (command_flags cmd) k = Some g" by blast
      with ok k show "\<exists>g. map_of (command_flags cmd) k = Some g
            \<and> (\<forall>x. default_producer g \<noteq> Some (Inl x))"
        by blast
    qed
    from usage_defaults_throws [OF this f, of e post "[]"] show ?thesis
      by (simp add: run m_def names)
  qed
  from c1 c2 c3 c4 c5 show ?thesis by blast
qed

theorem runCommand_help_witness:
  "wantsHelp argv_help
   \<and> runCommand env0 plain_renderer ''hello'' hello argv_help
       = ([CallDefault ''exuberant'', Log ''hello: Prompts., false''], Inr ())
   \<and> wantsHelp argv_h
   \<and> runCommand env0 plain_renderer ''hello'' broken_hello argv_h
       = ([CallDefault ''exuberant''], Inl (Raised ''boom''))"
proof -
  have h: "wantsHelp argv_help"
    by (simp add: wantsHelp_def argv_get_def inherited_def object_prototype_names_def
        argv_help_def)
  have h': "wantsHelp argv_h"
    by (simp add: wantsHelp_def argv_get_def inherited_def object_prototype_names_def
        argv_h_def)
  have ok: "\<forall>n f err. map_of (command_flags hello) n = Some f
      \<longrightarrow> default_producer f \<noteq> Some (Inl err)"
    by (auto simp add: hello_def hello_flags_def flag_name_def flag_exuberant_def
        split: if_splits)
  have c1: "runCommand env0 plain_renderer ''hello'' hello argv_help
       = ([CallDefault ''exuberant'', Log ''hello: Prompts., false''], Inr ())"
    using runCommand_help [OF h, of env0 plain_renderer "''hello''" hello,
        THEN conjunct2, THEN conjunct2, THEN conjunct2, THEN conjunct1] ok
    by (simp add: hello_def hello_flags_def has_default_def flag_name_def flag_exuberant_def
        env0_def plain_renderer_def join_def)
  have pre: "map fst (command_flags broken_hello) = [''name''] @ ''exuberant'' # []
      \<and> (\<forall>k g x. k \<in> set [''name''] \<and> map_of (command_flags broken_hello) k = Some g
            \<longrightarrow> default_producer g \<noteq> Some (Inl x))
      \<and> map_of (command_flags broken_hello) ''exuberant'' = Some flag_throwing_default
      \<and> default_producer flag_throwing_default = Some (Inl (Raised ''boom''))"
    by (simp add: broken_hello_def broken_flags_def flag_name_def flag_throwing_default_def)
  have c2: "runCommand env0 plain_renderer ''hello'' broken_hello argv_h
       = ([CallDefault ''exuberant''], Inl (Raised ''boom''))"
    using runCommand_help [OF h', where pre = "[''name'']" and n = "''exuberant''"
        and post = "[]" and cmd = broken_hello and f = flag_throwing_default
        and err = "Raised ''boom''" and e = env0 and rd = plain_renderer and nm = "''hello''",
        THEN conjunct2, THEN conjunct2, THEN conjunct2, THEN conjunct2] pre
    by (simp add: broken_hello_def broken_flags_def has_default_def flag_name_def)
  from h c1 h' c2 show ?thesis by simp
qed

text \<open>
  The claim C5 says that with a help flag \<^verbatim>\<open>runCommand\<close> renders usage and returns,
  with no effect beyond the help output. It calls the default producers to render the
  Default column; when one of them throws, no usage is logged and the error propagates.
\<close>

theorem runCommand_help_default_throws:
  "wantsHelp argv_help
   \<and> runCommand env0 plain_renderer ''hello'' broken_hello argv_help
       = ([CallDefault ''exuberant''], Inl (Raised ''boom''))"
  by (simp add: runCommand_def wantsHelp_def argv_get_def inherited_def
      object_prototype_names_def argv_help_def getCommandUsage_def
      broken_hello_def broken_flags_def flag_name_def flag_throwing_default_def io_bind_def
      io_call_def io_return_def)

section \<open>The subcommand router without a subcommand\<close>

text \<open>
  C1. With no positional token, or with the single token \<^verbatim>\<open>help\<close>, the list
  \<^verbatim>\<open>args\<close> is empty and \<^verbatim>\<open>args[0].toString()\<close> throws a \<^verbatim>\<open>TypeError\<close>:
  \<^verbatim>\<open>runLoaders\<close> fails before it loads a command or logs anything, whatever the
  loaders and the flags are.
\<close>

theorem runLoaders_no_subcommand:
  "runLoaders e rd nm commandLoaders \<lparr>positional = [], named = fl\<rparr>
     = ([], Inl (TypeError ''Cannot read property 'toString' of undefined''))
   \<and> runLoaders e rd nm commandLoaders \<lparr>positional = [JStr ''help''], named = fl\<rparr>
     = ([], Inl (TypeError ''Cannot read property 'toString' of undefined''))"
  by (simp add: runLoaders_def toString_def io_throw_def)

section \<open>Positional arguments and the rest\<close>

lemma io_bind_cong_ok:
  "(\<And>x. snd m = Inr x \<Longrightarrow> f x = g x) \<Longrightarrow> io_bind m f = io_bind m g"
  by (cases m) (auto simp add: io_bind_def split: sum.splits)

lemma parseArgs_loop_ok:
  "snd (parseArgs_loop e as given i results) = Inr vs \<Longrightarrow>
   \<exists>ws. vs = results @ ws
     \<and> map (\<lambda>(k, a). snd (parseArg e k a given)) (enumerate i as) = map Inr ws
     \<and> fst (parseArgs_loop e as given i results)
         = concat (map (\<lambda>(k, a). fst (parseArg e k a given)) (enumerate i as))"
proof (induction as arbitrary: i results)
  case Nil
  then show ?case by (simp add: io_return_def)
next
  case (Cons a as)
  from Cons.prems obtain v where v: "snd (parseArg e i a given) = Inr v"
    and rest: "snd (parseArgs_loop e as given (Suc i) (results @ [v])) = Inr vs"
    by (auto simp add: snd_io_bind split: sum.splits)
  from Cons.IH [OF rest] obtain ws where ws: "vs = (results @ [v]) @ ws"
    "map (\<lambda>(k, a). snd (parseArg e k a given)) (enumerate (Suc i) as) = map Inr ws"
    "fst (parseArgs_loop e as given (Suc i) (results @ [v]))
       = concat (map (\<lambda>(k, a). fst (parseArg e k a given)) (enumerate (Suc i) as))"
    by blast
  have "vs = results @ (v # ws)" using ws(1) by simp
  moreover have "map (\<lambda>(k, a). snd (parseArg e k a given)) (enumerate i (a # as))
      = map Inr (v # ws)"
    using v ws(2) by simp
  moreover have "fst (parseArgs_loop e (a # as) given i results)
      = concat (map (\<lambda>(k, a). fst (parseArg e k a given)) (enumerate i (a # as)))"
    using v ws(3) by (simp add: fst_io_bind)
  ultimately show ?case by blast
qed

lemma parseRest_loop_ok:
  "snd (parseRest_loop e r ts i results) = Inr vs \<Longrightarrow>
   \<exists>ws. vs = results @ ws
     \<and> map (\<lambda>(k, t). snd (tryParseValue e (''Rest arg '' @ dec (k + 1)) r t)) (enumerate i ts)
         = map Inr ws
     \<and> fst (parseRest_loop e r ts i results)
         = concat (map (\<lambda>(k, t). fst (tryParseValue e (''Rest arg '' @ dec (k + 1)) r t))
             (enumerate i ts))"
proof (induction ts arbitrary: i results)
  case Nil
  then show ?case by (simp add: io_return_def)
next
  case (Cons t ts)
  from Cons.prems obtain v where
    v: "snd (tryParseValue e (''Rest arg '' @ dec (i + 1)) r t) = Inr v"
    and rest: "snd (parseRest_loop e r ts (Suc i) (results @ [v])) = Inr vs"
    by (auto simp add: snd_io_bind split: sum.splits)
  from Cons.IH [OF rest] obtain ws where ws: "vs = (results @ [v]) @ ws"
    "map (\<lambda>(k, t). snd (tryParseValue e (''Rest arg '' @ dec (k + 1)) r t)) (enumerate (Suc i) ts)
       = map Inr ws"
    "fst (parseRest_loop e r ts (Suc i) (results @ [v]))
       = concat (map (\<lambda>(k, t). fst (tryParseValue e (''Rest arg '' @ dec (k + 1)) r t))
           (enumerate (Suc i) ts))"
    by blast
  have "vs = results @ (v # ws)" using ws(1) by simp
  moreover have
    "map (\<lambda>(k, t). snd (tryParseValue e (''Rest arg '' @ dec (k + 1)) r t)) (enumerate i (t # ts))
      = map Inr (v # ws)"
    using v ws(2) by simp
  moreover have "fst (parseRest_loop e r (t # ts) i results)
      = concat (map (\<lambda>(k, t). fst (tryParseValue e (''Rest arg '' @ dec (k + 1)) r t))
          (enumerate i (t # ts)))"
    using v ws(3) by (simp add: fst_io_bind)
  ultimately show ?case by blast
qed

lemma parseRest_loop_events:
  "ev \<in> set (fst (parseRest_loop e r ts i results)) \<Longrightarrow>
   \<exists>k x. ev = CallParse (''Rest arg '' @ dec (k + 1)) x"
proof (induction ts arbitrary: i results)
  case Nil
  then show ?case by (simp add: io_return_def)
next
  case (Cons t ts)
  from Cons.prems have
    "ev \<in> set (fst (tryParseValue e (''Rest arg '' @ dec (i + 1)) r t))
     \<or> (\<exists>v. ev \<in> set (fst (parseRest_loop e r ts (Suc i) (results @ [v]))))"
    by (auto simp add: fst_io_bind split: sum.splits)
  then show ?case
  proof
    assume "ev \<in> set (fst (tryParseValue e (''Rest arg '' @ dec (i + 1)) r t))"
    then have "ev = CallParse (''Rest arg '' @ dec (i + 1)) t"
      by (rule tryParseValue_events)
    then show ?thesis by blast
  next
    assume "\<exists>v. ev \<in> set (fst (parseRest_loop e r ts (Suc i) (results @ [v])))"
    then show ?thesis using Cons.IH by blast
  qed
qed

lemma parseArgs_loop_fail:
  "snd (parseArgs_loop e as given i results) = Inl err \<Longrightarrow>
   \<exists>k<length as. snd (parseArg e (i + k) (as ! k) given) = Inl err
     \<and> (\<forall>j<k. \<exists>v. snd (parseArg e (i + j) (as ! j) given) = Inr v)
     \<and> fst (parseArgs_loop e as given i results)
         = concat (map (\<lambda>(k, a). fst (parseArg e k a given)) (enumerate i (take (Suc k) as)))"
proof (induction as arbitrary: i results)
  case Nil
  then show ?case by (simp add: io_return_def)
next
  case (Cons a as)
  show ?case
  proof (cases "snd (parseArg e i a given)")
    case (Inl err')
    with Cons.prems have "err' = err" by (simp add: snd_io_bind)
    with Inl have "snd (parseArg e (i + 0) ((a # as) ! 0) given) = Inl err
      \<and> (\<forall>j<0. \<exists>v. snd (parseArg e (i + j) ((a # as) ! j) given) = Inr v)
      \<and> fst (parseArgs_loop e (a # as) given i results)
         = concat (map (\<lambda>(k, a). fst (parseArg e k a given))
             (enumerate i (take (Suc 0) (a # as))))"
      by (simp add: fst_io_bind)
    then show ?thesis by blast
  next
    case (Inr v)
    with Cons.prems have
      rest: "snd (parseArgs_loop e as given (Suc i) (results @ [v])) = Inl err"
      by (simp add: snd_io_bind)
    from Cons.IH [OF rest] obtain k where k: "k < length as"
      "snd (parseArg e (Suc i + k) (as ! k) given) = Inl err"
      "\<forall>j<k. \<exists>v. snd (parseArg e (Suc i + j) (as ! j) given) = Inr v"
      "fst (parseArgs_loop e as given (Suc i) (results @ [v]))
         = concat (map (\<lambda>(k, a). fst (parseArg e k a given))
             (enumerate (Suc i) (take (Suc k) as)))"
      by blast
    have earlier: "\<exists>w. snd (parseArg e (i + j) ((a # as) ! j) given) = Inr w"
      if "j < Suc k" for j
    proof (cases j)
      case 0
      with Inr show ?thesis by simp
    next
      case (Suc j')
      with that k(3) show ?thesis by simp
    qed
    have "Suc k < length (a # as)" using k(1) by simp
    moreover have "snd (parseArg e (i + Suc k) ((a # as) ! Suc k) given) = Inl err"
      using k(2) by simp
    moreover have "fst (parseArgs_loop e (a # as) given i results)
         = concat (map (\<lambda>(k, a). fst (parseArg e k a given))
             (enumerate i (take (Suc (Suc k)) (a # as))))"
      using Inr k(4) by (simp add: fst_io_bind)
    ultimately show ?thesis using earlier by blast
  qed
qed

lemma parseRest_loop_fail:
  "snd (parseRest_loop e r ts i results) = Inl err \<Longrightarrow>
   \<exists>k<length ts. snd (tryParseValue e (''Rest arg '' @ dec (i + k + 1)) r (ts ! k)) = Inl err
     \<and> (\<forall>j<k. \<exists>v. snd (tryParseValue e (''Rest arg '' @ dec (i + j + 1)) r (ts ! j)) = Inr v)
     \<and> fst (parseRest_loop e r ts i results)
         = concat (map (\<lambda>(k, t). fst (tryParseValue e (''Rest arg '' @ dec (k + 1)) r t))
             (enumerate i (take (Suc k) ts)))"
proof (induction ts arbitrary: i results)
  case Nil
  then show ?case by (simp add: io_return_def)
next
  case (Cons t ts)
  show ?case
  proof (cases "snd (tryParseValue e (''Rest arg '' @ dec (i + 1)) r t)")
    case (Inl err')
    with Cons.prems have "err' = err" by (simp add: snd_io_bind)
    with Inl have
      "snd (tryParseValue e (''Rest arg '' @ dec (i + 0 + 1)) r ((t # ts) ! 0)) = Inl err
      \<and> (\<forall>j<0. \<exists>v. snd (tryParseValue e (''Rest arg '' @ dec (i + j + 1)) r ((t # ts) ! j))
            = Inr v)
      \<and> fst (parseRest_loop e r (t # ts) i results)
         = concat (map (\<lambda>(k, t). fst (tryParseValue e (''Rest arg '' @ dec (k + 1)) r t))
             (enumerate i (take (Suc 0) (t # ts))))"
      by (simp add: fst_io_bind)
    then show ?thesis by blast
  next
    case (Inr v)
    with Cons.prems have
      rest: "snd (parseRest_loop e r ts (Suc i) (results @ [v])) = Inl err"
      by (simp add: snd_io_bind)
    from Cons.IH [OF rest] obtain k where k: "k < length ts"
      "snd (tryParseValue e (''Rest arg '' @ dec (Suc i + k + 1)) r (ts ! k)) = Inl err"
      "\<forall>j<k. \<exists>v. snd (tryParseValue e (''Rest arg '' @ dec (Suc i + j + 1)) r (ts ! j)) = Inr v"
      "fst (parseRest_loop e r ts (Suc i) (results @ [v]))
         = concat (map (\<lambda>(k, t). fst (tryParseValue e (''Rest arg '' @ dec (k + 1)) r t))
             (enumerate (Suc i) (take (Suc k) ts)))"
      by blast
    have earlier:
      "\<exists>w. snd (tryParseValue e (''Rest arg '' @ dec (i + j + 1)) r ((t # ts) ! j)) = Inr w"
      if "j < Suc k" for j
    proof (cases j)
      case 0
      with Inr show ?thesis by simp
    next
      case (Suc j')
      with that k(3) show ?thesis by simp
    qed
    have "Suc k < length (t # ts)" using k(1) by simp
    moreover have
      "snd (tryParseValue e (''Rest arg '' @ dec (i + Suc k + 1)) r ((t # ts) ! Suc k)) = Inl err"
      using k(2) by simp
    moreover have "fst (parseRest_loop e r (t # ts) i results)
         = concat (map (\<lambda>(k, t). fst (tryParseValue e (''Rest arg '' @ dec (k + 1)) r t))
             (enumerate i (take (Suc (Suc k)) (t # ts))))"
      using Inr k(4) by (simp add: fst_io_bind)
    ultimately show ?thesis using earlier by blast
  qed
qed

lemma parseArgsArray_length:
  "snd (parseArgsArray e as argv) = Inr vs \<Longrightarrow> length vs = length as"
proof -
  assume "snd (parseArgsArray e as argv) = Inr vs"
  then have "snd (parseArgs_loop e as (positional argv) 0 []) = Inr vs"
    by (simp add: parseArgsArray_def)
  from parseArgs_loop_ok [OF this] obtain ws where "vs = ws"
    "map (\<lambda>(k, a). snd (parseArg e k a (positional argv))) (enumerate 0 as) = map Inr ws"
    by auto
  then have "length (enumerate 0 as) = length vs"
    by (metis length_map)
  then show ?thesis by simp
qed

text \<open>
  C6. For an \<^verbatim>\<open>ArgsCommand\<close> and raw arguments without a help flag, \<^verbatim>\<open>runCommand\<close>
  resolves the declared positional specs, then the tokens after the first
  \<open>length as\<close> against the rest spec, then the flags, and then invokes the handler with
  the three results. The declared specs are resolved in declared order, spec \<open>k\<close>
  against index \<open>k\<close> of the tokens, up to the first that fails, whose error is the
  outcome; a spec with a token is resolved by \<^verbatim>\<open>tryParseValue\<close>, one without by the
  prompt path. Each remaining token is resolved by \<^verbatim>\<open>tryParseValue\<close> alone, in order
  and up to the first that fails, and no tokens give the empty result whatever the rest
  spec is. \<^verbatim>\<open>tryParseValue\<close> calls the parser when there is one, turns its error into
  the "cannot parse" error with the raw value, and checks the value with
  \<^verbatim>\<open>validate\<close>: a valid one is returned as it is, an invalid one gives the "invalid
  value" error.
\<close>

theorem runCommand_args_rest:
  "(\<not> wantsHelp argv \<longrightarrow>
      runCommand e rd nm (ArgsCommand d fl as r run) argv
        = io_bind (parseArgsArray e as argv)
            (\<lambda>args. io_bind (parseRest e r (drop (length as) (positional argv)))
               (\<lambda>rest. io_bind (parseFlagMap e fl argv)
                  (\<lambda>flags. io_call (CallRun flags args rest) (run flags args rest)))))
   \<and> (snd (parseArgsArray e as argv) = Inr vs \<longrightarrow>
        length vs = length as
        \<and> map (\<lambda>(k, a). snd (parseArg e k a (positional argv))) (enumerate 0 as) = map Inr vs
        \<and> fst (parseArgsArray e as argv)
            = concat (map (\<lambda>(k, a). fst (parseArg e k a (positional argv))) (enumerate 0 as)))
   \<and> (snd (parseArgsArray e as argv) = Inl err \<longrightarrow>
        (\<exists>k<length as. snd (parseArg e k (as ! k) (positional argv)) = Inl err
           \<and> (\<forall>j<k. \<exists>v. snd (parseArg e j (as ! j) (positional argv)) = Inr v)
           \<and> fst (parseArgsArray e as argv)
               = concat (map (\<lambda>(k, a). fst (parseArg e k a (positional argv)))
                   (enumerate 0 (take (Suc k) as)))))
   \<and> parseArg e i a given
        = (if i < length given
           then tryParseValue e (''arg '' @ dec (i + 1) @ '' ('' @ arg_name a @ '')'') a (given ! i)
           else tryPrompt e (''arg '' @ dec (i + 1) @ '' ('' @ arg_name a @ '')'') a)
   \<and> parseRest e r [] = ([], Inr [])
   \<and> (\<forall>ev\<in>set (fst (parseRest e r ts)). \<exists>k x. ev = CallParse (''Rest arg '' @ dec (k + 1)) x)
   \<and> (snd (parseRest e r ts) = Inr ws \<longrightarrow>
        map (\<lambda>(k, t). snd (tryParseValue e (''Rest arg '' @ dec (k + 1)) r t)) (enumerate 0 ts)
          = map Inr ws
        \<and> fst (parseRest e r ts)
            = concat (map (\<lambda>(k, t). fst (tryParseValue e (''Rest arg '' @ dec (k + 1)) r t))
                (enumerate 0 ts)))
   \<and> (snd (parseRest e r ts) = Inl err' \<longrightarrow>
        (\<exists>k<length ts. snd (tryParseValue e (''Rest arg '' @ dec (k + 1)) r (ts ! k)) = Inl err'
           \<and> (\<forall>j<k. \<exists>v. snd (tryParseValue e (''Rest arg '' @ dec (j + 1)) r (ts ! j)) = Inr v)
           \<and> fst (parseRest e r ts)
               = concat (map (\<lambda>(k, t). fst (tryParseValue e (''Rest arg '' @ dec (k + 1)) r t))
                   (enumerate 0 (take (Suc k) ts)))))
   \<and> tryParseValue e lbl spec x
        = (case parse spec of
             None \<Rightarrow>
               if validate spec x then ([], Inr x)
               else ([], Inl (CommandLineError
                              (lbl @ '': invalid value: '' @ inspect e x @ '')'') x))
           | Some p \<Rightarrow>
               (case p x of
                  Inl perr \<Rightarrow>
                    ([CallParse lbl x],
                     Inl (CommandLineError
                            (lbl @ '': cannot parse '' @ inspect e x @ '': '' @ exn_message perr)
                            x))
                | Inr v \<Rightarrow>
                    if validate spec v then ([CallParse lbl x], Inr v)
                    else ([CallParse lbl x],
                          Inl (CommandLineError
                                 (lbl @ '': invalid value: '' @ inspect e v @ '')'') v))))"
proof (intro conjI impI ballI)
  assume "\<not> wantsHelp argv"
  then have "runCommand e rd nm (ArgsCommand d fl as r run) argv
        = io_bind (parseArgsArray e as argv)
            (\<lambda>args. io_bind (parseRest e r (drop (length args) (positional argv)))
               (\<lambda>rest. io_bind (parseFlagMap e fl argv)
                  (\<lambda>flags. io_call (CallRun flags args rest) (run flags args rest))))"
    by (simp add: runCommand_def)
  also have "\<dots> = io_bind (parseArgsArray e as argv)
            (\<lambda>args. io_bind (parseRest e r (drop (length as) (positional argv)))
               (\<lambda>rest. io_bind (parseFlagMap e fl argv)
                  (\<lambda>flags. io_call (CallRun flags args rest) (run flags args rest))))"
    by (rule io_bind_cong_ok) (simp add: parseArgsArray_length)
  finally show "runCommand e rd nm (ArgsCommand d fl as r run) argv
        = io_bind (parseArgsArray e as argv)
            (\<lambda>args. io_bind (parseRest e r (drop (length as) (positional argv)))
               (\<lambda>rest. io_bind (parseFlagMap e fl argv)
                  (\<lambda>flags. io_call (CallRun flags args rest) (run flags args rest))))" .
next
  assume "snd (parseArgsArray e as argv) = Inr vs"
  then show "length vs = length as" by (rule parseArgsArray_length)
next
  assume "snd (parseArgsArray e as argv) = Inr vs"
  then have "snd (parseArgs_loop e as (positional argv) 0 []) = Inr vs"
    by (simp add: parseArgsArray_def)
  from parseArgs_loop_ok [OF this]
  show "map (\<lambda>(k, a). snd (parseArg e k a (positional argv))) (enumerate 0 as) = map Inr vs"
    by auto
next
  assume "snd (parseArgsArray e as argv) = Inr vs"
  then have "snd (parseArgs_loop e as (positional argv) 0 []) = Inr vs"
    by (simp add: parseArgsArray_def)
  from parseArgs_loop_ok [OF this]
  show "fst (parseArgsArray e as argv)
            = concat (map (\<lambda>(k, a). fst (parseArg e k a (positional argv))) (enumerate 0 as))"
    by (auto simp add: parseArgsArray_def)
next
  assume "snd (parseArgsArray e as argv) = Inl err"
  then have "snd (parseArgs_loop e as (positional argv) 0 []) = Inl err"
    by (simp add: parseArgsArray_def)
  from parseArgs_loop_fail [OF this]
  show "\<exists>k<length as. snd (parseArg e k (as ! k) (positional argv)) = Inl err
           \<and> (\<forall>j<k. \<exists>v. snd (parseArg e j (as ! j) (positional argv)) = Inr v)
           \<and> fst (parseArgsArray e as argv)
               = concat (map (\<lambda>(k, a). fst (parseArg e k a (positional argv)))
                   (enumerate 0 (take (Suc k) as)))"
    by (simp add: parseArgsArray_def)
next
  show "parseArg e i a given
        = (if i < length given
           then tryParseValue e (''arg '' @ dec (i + 1) @ '' ('' @ arg_name a @ '')'') a (given ! i)
           else tryPrompt e (''arg '' @ dec (i + 1) @ '' ('' @ arg_name a @ '')'') a)"
    by (simp add: parseArg_def Let_def del: append.simps)
next
  show "parseRest e r [] = ([], Inr [])"
    by (simp add: parseRest_def io_return_def)
next
  fix ev assume "ev \<in> set (fst (parseRest e r ts))"
  then show "\<exists>k x. ev = CallParse (''Rest arg '' @ dec (k + 1)) x"
    using parseRest_loop_events [of ev e r ts 0 "[]"]
    by (cases "ts = []") (simp_all add: parseRest_def io_return_def)
next
  assume a: "snd (parseRest e r ts) = Inr ws"
  show "map (\<lambda>(k, t). snd (tryParseValue e (''Rest arg '' @ dec (k + 1)) r t)) (enumerate 0 ts)
          = map Inr ws"
  proof (cases "ts = []")
    case True
    with a show ?thesis by (simp add: parseRest_def io_return_def)
  next
    case False
    with a have "snd (parseRest_loop e r ts 0 []) = Inr ws" by (simp add: parseRest_def)
    from parseRest_loop_ok [OF this] show ?thesis by auto
  qed
next
  assume a: "snd (parseRest e r ts) = Inr ws"
  show "fst (parseRest e r ts)
            = concat (map (\<lambda>(k, t). fst (tryParseValue e (''Rest arg '' @ dec (k + 1)) r t))
                (enumerate 0 ts))"
  proof (cases "ts = []")
    case True
    then show ?thesis by (simp add: parseRest_def io_return_def)
  next
    case False
    with a have "snd (parseRest_loop e r ts 0 []) = Inr ws" by (simp add: parseRest_def)
    from parseRest_loop_ok [OF this] False show ?thesis by (auto simp add: parseRest_def)
  qed
next
  assume a: "snd (parseRest e r ts) = Inl err'"
  then have ne: "ts \<noteq> []" by (auto simp add: parseRest_def io_return_def)
  with a have "snd (parseRest_loop e r ts 0 []) = Inl err'" by (simp add: parseRest_def)
  from parseRest_loop_fail [OF this] ne
  show "\<exists>k<length ts. snd (tryParseValue e (''Rest arg '' @ dec (k + 1)) r (ts ! k)) = Inl err'
           \<and> (\<forall>j<k. \<exists>v. snd (tryParseValue e (''Rest arg '' @ dec (j + 1)) r (ts ! j)) = Inr v)
           \<and> fst (parseRest e r ts)
               = concat (map (\<lambda>(k, t). fst (tryParseValue e (''Rest arg '' @ dec (k + 1)) r t))
                   (enumerate 0 (take (Suc k) ts)))"
    by (simp add: parseRest_def)
next
  show "tryParseValue e lbl spec x
        = (case parse spec of
             None \<Rightarrow>
               if validate spec x then ([], Inr x)
               else ([], Inl (CommandLineError
                              (lbl @ '': invalid value: '' @ inspect e x @ '')'') x))
           | Some p \<Rightarrow>
               (case p x of
                  Inl perr \<Rightarrow>
                    ([CallParse lbl x],
                     Inl (CommandLineError
                            (lbl @ '': cannot parse '' @ inspect e x @ '': '' @ exn_message perr)
                            x))
                | Inr v \<Rightarrow>
                    if validate spec v then ([CallParse lbl x], Inr v)
                    else ([CallParse lbl x],
                          Inl (CommandLineError
                                 (lbl @ '': invalid value: '' @ inspect e v @ '')'') v))))"
    by (rule tryParseValue_cases)
qed

theorem runCommand_args_rest_witness:
  "\<not> wantsHelp argv_1234
   \<and> parseArgsArray env0 [arg_a, arg_b] argv_1234 = ([], Inr [JStr ''1'', JStr ''2''])
   \<and> parseRest env0 arg_c [JStr ''3'', JStr ''4''] = ([], Inr [JStr ''3'', JStr ''4''])
   \<and> runCommand env0 plain_renderer ''demo'' demo argv_1234
       = ([CallRun [] [JStr ''1'', JStr ''2''] [JStr ''3'', JStr ''4'']], Inr ())
   \<and> parseArg env0 0 arg_a [JNum 1]
       = ([], Inl (CommandLineError ''arg 1 (a): invalid value: 1)'' (JNum 1)))
   \<and> parseRest env0 arg_upper [JStr ''x'', JNum 2]
       = ([CallParse ''Rest arg 1'' (JStr ''x''), CallParse ''Rest arg 2'' (JNum 2)],
          Inl (CommandLineError ''Rest arg 2: cannot parse 2: not a text'' (JNum 2)))"
proof -
  note th = runCommand_args_rest
  note tpv_a = th [where e = env0 and spec = arg_a, THEN conjunct2, THEN conjunct2,
      THEN conjunct2, THEN conjunct2, THEN conjunct2, THEN conjunct2, THEN conjunct2,
      THEN conjunct2]
  note tpv_b = th [where e = env0 and spec = arg_b, THEN conjunct2, THEN conjunct2,
      THEN conjunct2, THEN conjunct2, THEN conjunct2, THEN conjunct2, THEN conjunct2,
      THEN conjunct2]
  note tpv_c = th [where e = env0 and spec = arg_c, THEN conjunct2, THEN conjunct2,
      THEN conjunct2, THEN conjunct2, THEN conjunct2, THEN conjunct2, THEN conjunct2,
      THEN conjunct2]
  note tpv_u = th [where e = env0 and spec = arg_upper, THEN conjunct2, THEN conjunct2,
      THEN conjunct2, THEN conjunct2, THEN conjunct2, THEN conjunct2, THEN conjunct2,
      THEN conjunct2]
  note pa_a = th [where e = env0 and a = arg_a, THEN conjunct2, THEN conjunct2, THEN conjunct2,
      THEN conjunct1]
  note pa_b = th [where e = env0 and a = arg_b, THEN conjunct2, THEN conjunct2, THEN conjunct2,
      THEN conjunct1]
  have h: "\<not> wantsHelp argv_1234"
    by (simp add: wantsHelp_def argv_get_def inherited_def object_prototype_names_def
        argv_1234_def)
  have pc: "tryParseValue env0 lbl arg_c (JStr x) = ([], Inr (JStr x))" for lbl x
    using tpv_c
    by (simp add: arg_c_def validate_string_def)
  have pa0: "parseArg env0 0 arg_a (positional argv_1234) = ([], Inr (JStr ''1''))"
    using pa_a tpv_a
    by (simp add: argv_1234_def arg_a_def validate_string_def)
  have pb1: "parseArg env0 (Suc 0) arg_b (positional argv_1234) = ([], Inr (JStr ''2''))"
    using pa_b tpv_b
    by (simp add: argv_1234_def arg_b_def validate_string_def)
  have c1: "parseArgsArray env0 [arg_a, arg_b] argv_1234 = ([], Inr [JStr ''1'', JStr ''2''])"
    by (simp add: parseArgsArray_def pa0 pb1 io_bind_def io_return_def)
  have c2: "parseRest env0 arg_c [JStr ''3'', JStr ''4''] = ([], Inr [JStr ''3'', JStr ''4''])"
    by (simp add: parseRest_def pc io_bind_def io_return_def)
  have c3: "parseFlagMap env0 [] argv_1234 = ([], Inr [])"
    by (simp add: parseFlagMap_def unknownFlags_def givenFlagNames_def argv_keys_def
        argv_1234_def io_return_def io_bind_def)
  have dr: "drop (Suc (Suc 0)) (positional argv_1234) = [JStr ''3'', JStr ''4'']"
    by (simp add: argv_1234_def)
  have c4: "runCommand env0 plain_renderer ''demo'' demo argv_1234
       = ([CallRun [] [JStr ''1'', JStr ''2''] [JStr ''3'', JStr ''4'']], Inr ())"
    using th [of argv_1234 env0 plain_renderer "''demo''" "''Demo''" "[]" "[arg_a, arg_b]" arg_c
        "\<lambda>flags args rest. Inr ()", THEN conjunct1] h
    by (simp add: demo_def c1 dr c2 c3 io_bind_def io_call_def)
  have c5: "parseArg env0 0 arg_a [JNum 1]
       = ([], Inl (CommandLineError ''arg 1 (a): invalid value: 1)'' (JNum 1)))"
    using pa_a tpv_a
    by (simp add: arg_a_def validate_string_def env0_def dec_small digit_char_def int_to_string_def)
  have u1: "tryParseValue env0 ''Rest arg 1'' arg_upper (JStr ''x'')
      = ([CallParse ''Rest arg 1'' (JStr ''x'')], Inr (JStr ''X''))"
    using tpv_u
    by (simp add: arg_upper_def validate_string_def)
  have u2: "tryParseValue env0 ''Rest arg 2'' arg_upper (JNum 2)
      = ([CallParse ''Rest arg 2'' (JNum 2)],
         Inl (CommandLineError ''Rest arg 2: cannot parse 2: not a text'' (JNum 2)))"
    using tpv_u
    by (simp add: arg_upper_def env0_def dec_small
        digit_char_def int_to_string_def)
  have c6: "parseRest env0 arg_upper [JStr ''x'', JNum 2]
       = ([CallParse ''Rest arg 1'' (JStr ''x''), CallParse ''Rest arg 2'' (JNum 2)],
          Inl (CommandLineError ''Rest arg 2: cannot parse 2: not a text'' (JNum 2)))"
    using u1 u2
    by (simp add: parseRest_def io_bind_def dec_small digit_char_def)
  from h c1 c2 c4 c5 c6 show ?thesis by simp
qed

section \<open>Unparsing flags\<close>

lemma unparseFlags_loop_concat:
  "unparseFlags_loop e keys flags results
     = results @ concat (map (\<lambda>k.
         if obj_get flags k = JBool True then [''--'' @ k]
         else if truthy (obj_get flags k) then [''--'' @ k @ ''='' @ stringify e (obj_get flags k)]
         else []) keys)"
  by (induction keys arbitrary: results) simp_all

lemma unparseFlags_truthy_map:
  assumes "\<forall>k\<in>set keys. truthy (obj_get flags k)"
  shows "unparseFlags_loop e keys flags []
     = map (\<lambda>k. if obj_get flags k = JBool True then ''--'' @ k
                 else ''--'' @ k @ ''='' @ stringify e (obj_get flags k)) keys"
  using assms by (induction keys) (simp_all add: unparseFlags_loop_concat)




end
